theory Spec2Isabelle
  imports Main "HOL-Library.Sublist"
begin

section \<open>Python values used by \<open>client_chat.py\<close>\<close>

subsection \<open>Strings\<close>

text \<open>
  A Python \<open>str\<close> is modelled by \<^typ>\<open>string\<close>; a \<^typ>\<open>char\<close> stands for the code
  point with the same number, so the strings covered are those over code points below 256.
  \<open>isspace\<close>, \<open>strip\<close>, \<open>lower\<close> and \<open>endswith\<close> are the built-in methods of \<open>str\<close>,
  restricted to that range.
\<close>

definition isspace :: "char \<Rightarrow> bool" where
  "isspace c = ((of_char c :: nat) \<in> set [9, 10, 11, 12, 13, 28, 29, 30, 31, 32, 133, 160])"

definition lstrip :: "string \<Rightarrow> string" where
  "lstrip s = dropWhile isspace s"

definition rstrip :: "string \<Rightarrow> string" where
  "rstrip s = rev (dropWhile isspace (rev s))"

definition strip :: "string \<Rightarrow> string" where
  "strip s = rstrip (lstrip s)"

definition lower_char :: "char \<Rightarrow> char" where
  "lower_char c =
     (let n = (of_char c :: nat)
      in if (65 \<le> n \<and> n \<le> 90) \<or> (192 \<le> n \<and> n \<le> 222 \<and> n \<noteq> 215)
         then char_of (n + 32) else c)"

definition lower :: "string \<Rightarrow> string" where
  "lower s = map lower_char s"

definition endswith :: "string \<Rightarrow> string \<Rightarrow> bool" where
  "endswith s suf = (length suf \<le> length s \<and> drop (length s - length suf) s = suf)"

text \<open>\<open>str(n)\<close> for an \<open>int\<close>: the decimal digits, with a minus sign when negative.\<close>

definition digit_char :: "nat \<Rightarrow> char" where
  "digit_char d = char_of (48 + d)"

function str_nat :: "nat \<Rightarrow> string" where
  "str_nat n = (if n < 10 then [digit_char n] else str_nat (n div 10) @ [digit_char (n mod 10)])"
  by pat_completeness auto
termination
  by (relation "measure (\<lambda>n. n)") auto

declare str_nat.simps [simp del]

definition str_int :: "int \<Rightarrow> string" where
  "str_int i = (if i < 0 then CHR ''-'' # str_nat (nat (- i)) else str_nat (nat i))"

text \<open>The characters that \<open>lower\<close> changes.\<close>

definition is_upper :: "char \<Rightarrow> bool" where
  "is_upper c = ((65 \<le> (of_char c :: nat) \<and> (of_char c :: nat) \<le> 90) \<or>
                 (192 \<le> (of_char c :: nat) \<and> (of_char c :: nat) \<le> 222 \<and>
                  (of_char c :: nat) \<noteq> 215))"

text \<open>Reading a decimal string back, to tell two such strings apart.\<close>

definition is_digit :: "char \<Rightarrow> bool" where
  "is_digit c = (48 \<le> (of_char c :: nat) \<and> (of_char c :: nat) < 58)"

fun digits_value :: "nat \<Rightarrow> string \<Rightarrow> nat" where
  "digits_value acc [] = acc"
| "digits_value acc (c # cs) = digits_value (10 * acc + (of_char c - 48)) cs"

subsection \<open>JSON values\<close>

text \<open>
  What \<open>response.json()\<close> and \<open>json.loads\<close> return: \<open>None\<close>, \<open>bool\<close>, \<open>int\<close>, \<open>float\<close>,
  \<open>str\<close>, \<open>list\<close> and \<open>dict\<close>. A \<open>dict\<close> is an association list in insertion order, read
  with \<^const>\<open>map_of\<close>. A float is a mantissa and a binary exponent, or one of the
  non-finite values that \<open>json.loads\<close> accepts.
\<close>

datatype pyfloat = Finite int int | Infinite bool | NaN

datatype json =
    JNull
  | JBool bool
  | JInt int
  | JFloat pyfloat
  | JStr string
  | JList "json list"
  | JObj "(string \<times> json) list"

text \<open>Truth value testing, as \<open>or\<close> applies it.\<close>

fun truthy :: "json \<Rightarrow> bool" where
  "truthy JNull = False"
| "truthy (JBool b) = b"
| "truthy (JInt i) = (i \<noteq> 0)"
| "truthy (JFloat (Finite m e)) = (m \<noteq> 0)"
| "truthy (JFloat (Infinite s)) = True"
| "truthy (JFloat NaN) = True"
| "truthy (JStr s) = (s \<noteq> [])"
| "truthy (JList xs) = (xs \<noteq> [])"
| "truthy (JObj kvs) = (kvs \<noteq> [])"

subsection \<open>Exceptions\<close>

text \<open>
  An exception is its class and the text \<open>str(e)\<close> gives. \<open>except Exception\<close> catches the
  classes deriving from \<open>Exception\<close>; \<open>KeyboardInterrupt\<close> and \<open>CancelledError\<close> derive from
  \<open>BaseException\<close> only and pass through it.
\<close>

datatype exc_class =
    ValueError
  | JSONDecodeError
  | AttributeError
  | TypeError
  | IndexError
  | KeyError
  | EOFError
  | PlainException
  | OtherException
  | KeyboardInterrupt
  | CancelledError

datatype exn = Exn exc_class string

fun is_Exception :: "exn \<Rightarrow> bool" where
  "is_Exception (Exn KeyboardInterrupt m) = False"
| "is_Exception (Exn CancelledError m) = False"
| "is_Exception (Exn c m) = True"

fun str_exn :: "exn \<Rightarrow> string" where
  "str_exn (Exn c m) = m"

text \<open>\<open>d.get(k, default)\<close> and \<open>d.get(k)\<close>; a value that is no \<open>dict\<close> has no \<open>get\<close>.\<close>

definition no_get :: exn where
  "no_get = Exn AttributeError ''object has no attribute get''"

fun py_get :: "json \<Rightarrow> string \<Rightarrow> json \<Rightarrow> exn + json" where
  "py_get (JObj kvs) k dflt = Inr (case map_of kvs k of None \<Rightarrow> dflt | Some v \<Rightarrow> v)"
| "py_get v k dflt = Inl no_get"

text \<open>The operator \<open>in\<close> with a string on the left, and subscription by a string.\<close>

definition not_iterable :: exn where
  "not_iterable = Exn TypeError ''argument is not iterable''"

definition bad_subscript :: exn where
  "bad_subscript = Exn TypeError ''indices must be integers or object is not subscriptable''"

fun py_in :: "string \<Rightarrow> json \<Rightarrow> exn + bool" where
  "py_in k (JObj kvs) = Inr (k \<in> set (map fst kvs))"
| "py_in k (JStr s) = Inr (sublist k s)"
| "py_in k (JList xs) = Inr (JStr k \<in> set xs)"
| "py_in k v = Inl not_iterable"

fun py_subscript :: "json \<Rightarrow> string \<Rightarrow> exn + json" where
  "py_subscript (JObj kvs) k =
     (case map_of kvs k of None \<Rightarrow> Inl (Exn KeyError k) | Some v \<Rightarrow> Inr v)"
| "py_subscript v k = Inl bad_subscript"

section \<open>The collaborators and what the process does to them\<close>

subsection \<open>Data exchanged\<close>

text \<open>A tool as \<open>list_tools\<close> reports it; \<open>description\<close> may be \<open>None\<close>.\<close>

record tool =
  tool_name :: string
  tool_description :: "string option"
  tool_inputSchema :: json

text \<open>
  The result of \<open>call_tool\<close>: a list of content blocks, of which only text blocks have
  the attribute \<open>text\<close>.
\<close>

datatype content_block = TextContent string | NonTextContent

record call_result =
  result_content :: "content_block list"
  result_isError :: bool

record chat_message =
  msg_role :: string
  msg_content :: string

text \<open>The request of \<open>session.post\<close>: URL, headers and the fields of \<open>data\<close>.\<close>

record request =
  req_url :: string
  req_headers :: "(string \<times> string) list"
  req_model :: string
  req_messages :: "chat_message list"
  req_tools :: "json list"
  req_tool_choice :: string
  req_stream :: bool

text \<open>
  The HTTP response as received: \<open>response.status\<close>, what \<open>response.text()\<close> gives and
  what \<open>response.json()\<close> gives or raises.
\<close>

record http_response =
  resp_status :: int
  resp_text :: string
  resp_json :: "exn + json"

subsection \<open>Console output and the history of effects\<close>

text \<open>
  A printed line is kept as its fixed part (the constructor) and the values interpolated
  into it. \<open>shown\<close> is \<open>result_text\<close>: the text of the first content block, or the result
  object itself.
\<close>

datatype shown = ShownText string | ShownRaw call_result

datatype console =
    Started
  | Hint
  | Prompt
  | Usage
  | Connected "string list"
  | ToolNotice json json
  | ToolResult json shown
  | ModelText json
  | QueryError string
  | LoopError string

datatype event =
    Printed console
  | Spawned string "string list"
  | Initialized
  | ListedTools
  | Posted request
  | CalledTool json json
  | CleanedUp

type_synonym history = "event list"

definition emit :: "event \<Rightarrow> history \<Rightarrow> history" where
  "emit ev h = h @ [ev]"

text \<open>
  The tool subprocess, the model endpoint and \<open>json.loads\<close> are outside the program.
  Each answer of a collaborator is a function of everything that happened before, so a
  collaborator with state of its own is covered.
\<close>

record env =
  spawn_resp :: "history \<Rightarrow> string \<Rightarrow> string list \<Rightarrow> exn option"
  initialize_resp :: "history \<Rightarrow> exn option"
  list_tools_resp :: "history \<Rightarrow> exn + tool list"
  post_resp :: "history \<Rightarrow> request \<Rightarrow> exn + http_response"
  call_tool_resp :: "history \<Rightarrow> json \<Rightarrow> json \<Rightarrow> exn + call_result"
  json_loads :: "string \<Rightarrow> exn + json"

section \<open>\<open>MCPClient\<close>\<close>

subsection \<open>\<open>connect_to_server\<close> and \<open>cleanup\<close>\<close>

definition connect_to_server :: "env \<Rightarrow> string \<Rightarrow> history \<Rightarrow> (exn + unit) \<times> history" where
  "connect_to_server env server_script_path h =
     (if \<not> endswith server_script_path ''.py''
      then (Inl (Exn ValueError ''Server script must be a .py file''), h)
      else
        let h1 = emit (Spawned ''python'' [server_script_path]) h
        in (case spawn_resp env h ''python'' [server_script_path] of
              Some e \<Rightarrow> (Inl e, h1)
            | None \<Rightarrow>
                (let h2 = emit Initialized h1
                 in (case initialize_resp env h1 of
                       Some e \<Rightarrow> (Inl e, h2)
                     | None \<Rightarrow>
                         (let h3 = emit ListedTools h2
                          in (case list_tools_resp env h2 of
                                Inl e \<Rightarrow> (Inl e, h3)
                              | Inr tools \<Rightarrow>
                                  (Inr (),
                                   emit (Printed (Connected (map tool_name tools))) h3)))))))"

definition cleanup :: "history \<Rightarrow> history" where
  "cleanup h = emit CleanedUp h"

subsection \<open>\<open>call_ollama\<close>\<close>

definition system_prompt :: string where
  "system_prompt =
     ''Puoi rispondere normalmente alle domande dell'' @ [CHR 0x27] @ ''utente. '' @
     ''Se tra gli strumenti disponibili c'' @ [CHR 0x27, CHR 0xE8] @
     '' qualcosa che pu'' @ [CHR 0xF2] @ '' aiutarti a rispondere meglio, usalo. '' @
     ''Altrimenti, non usare alcuno strumento.''"

definition build_messages :: "string \<Rightarrow> chat_message list" where
  "build_messages query =
     [\<lparr>msg_role = ''system'', msg_content = system_prompt\<rparr>,
      \<lparr>msg_role = ''user'', msg_content = query\<rparr>]"

definition build_request :: "string \<Rightarrow> json list \<Rightarrow> request" where
  "build_request query available_tools =
     \<lparr>req_url = ''http://localhost:11434/api/chat'',
      req_headers = [(''Content-Type'', ''application/json'')],
      req_model = ''qwen2.5:7b'',
      req_messages = build_messages query,
      req_tools = available_tools,
      req_tool_choice = ''auto'',
      req_stream = False\<rparr>"

text \<open>The body of \<open>async with session.post(...) as response\<close>.\<close>

definition on_response :: "http_response \<Rightarrow> exn + json" where
  "on_response response =
     (if resp_status response = 200
      then
        (case resp_json response of
           Inl e \<Rightarrow> Inl e
         | Inr response_data \<Rightarrow>
             (case py_get response_data ''message'' (JObj []) of
                Inl e \<Rightarrow> Inl e
              | Inr message \<Rightarrow>
                  (case py_in ''tool_calls'' message of
                     Inl e \<Rightarrow> Inl e
                   | Inr True \<Rightarrow> py_subscript message ''tool_calls''
                   | Inr False \<Rightarrow> py_get message ''content'' (JStr []))))
      else Inl (Exn PlainException
                  (''Errore Ollama: '' @ str_int (resp_status response) @ '' - '' @
                   resp_text response)))"

definition call_ollama :: "env \<Rightarrow> string \<Rightarrow> json list \<Rightarrow> history \<Rightarrow> (exn + json) \<times> history" where
  "call_ollama env query available_tools h =
     (let data = build_request query available_tools;
          h1 = emit (Posted data) h
      in (case post_resp env h data of
            Inl e \<Rightarrow> (Inl e, h1)
          | Inr response \<Rightarrow> (on_response response, h1)))"

subsection \<open>\<open>process_query\<close>\<close>

definition or_empty :: "string option \<Rightarrow> string" where
  "or_empty d = (case d of None \<Rightarrow> [] | Some s \<Rightarrow> if s \<noteq> [] then s else [])"

definition tool_descriptor :: "tool \<Rightarrow> json" where
  "tool_descriptor t =
     JObj [(''type'', JStr ''function''),
           (''function'',
            JObj [(''name'', JStr (tool_name t)),
                  (''description'', JStr (or_empty (tool_description t))),
                  (''parameters'', tool_inputSchema t)])]"

definition available_tools :: "tool list \<Rightarrow> json list" where
  "available_tools tools = map tool_descriptor tools"

text \<open>Lines 92 to 94: \<open>name\<close>, \<open>args_raw\<close> and \<open>args\<close> of one entry.\<close>

definition call_name :: "json \<Rightarrow> exn + json" where
  "call_name call =
     (case py_get call ''function'' (JObj []) of
        Inl e \<Rightarrow> Inl e
      | Inr f \<Rightarrow>
          (case py_get f ''name'' JNull of
             Inl e \<Rightarrow> Inl e
           | Inr n \<Rightarrow> if truthy n then Inr n else py_get call ''name'' JNull))"

definition call_args_raw :: "json \<Rightarrow> exn + json" where
  "call_args_raw call =
     (case py_get call ''function'' (JObj []) of
        Inl e \<Rightarrow> Inl e
      | Inr f \<Rightarrow>
          (case py_get f ''arguments'' JNull of
             Inl e \<Rightarrow> Inl e
           | Inr a \<Rightarrow> if truthy a then Inr a else py_get call ''arguments'' (JObj [])))"

definition call_args :: "env \<Rightarrow> json \<Rightarrow> exn + json" where
  "call_args env args_raw = (case args_raw of JStr s \<Rightarrow> json_loads env s | _ \<Rightarrow> Inr args_raw)"

text \<open>\<open>getattr(result.content[0], 'text', result)\<close>.\<close>

definition result_text :: "call_result \<Rightarrow> exn + shown" where
  "result_text result =
     (case result_content result of
        [] \<Rightarrow> Inl (Exn IndexError ''list index out of range'')
      | c # cs \<Rightarrow> Inr (case c of TextContent t \<Rightarrow> ShownText t | NonTextContent \<Rightarrow> ShownRaw result))"

text \<open>\<open>for call in content\<close>: an exception leaves the loop.\<close>

fun for_calls :: "env \<Rightarrow> json list \<Rightarrow> history \<Rightarrow> (exn + unit) \<times> history" where
  "for_calls env [] h = (Inr (), h)"
| "for_calls env (call # rest) h =
     (case call_name call of
        Inl e \<Rightarrow> (Inl e, h)
      | Inr name \<Rightarrow>
          (case call_args_raw call of
             Inl e \<Rightarrow> (Inl e, h)
           | Inr args_raw \<Rightarrow>
               (case call_args env args_raw of
                  Inl e \<Rightarrow> (Inl e, h)
                | Inr args \<Rightarrow>
                    (let h1 = emit (Printed (ToolNotice name args)) h;
                         h2 = emit (CalledTool name args) h1
                     in (case call_tool_resp env h1 name args of
                           Inl e \<Rightarrow> (Inl e, h2)
                         | Inr result \<Rightarrow>
                             (case result_text result of
                                Inl e \<Rightarrow> (Inl e, h2)
                              | Inr shown \<Rightarrow>
                                  for_calls env rest
                                    (emit (Printed (ToolResult name shown)) h2)))))))"

text \<open>The body of the \<open>try\<close> of \<open>process_query\<close>.\<close>

definition try_query :: "env \<Rightarrow> string \<Rightarrow> json list \<Rightarrow> history \<Rightarrow> (exn + unit) \<times> history" where
  "try_query env query tools h =
     (case call_ollama env query tools h of
        (Inl e, h1) \<Rightarrow> (Inl e, h1)
      | (Inr content, h1) \<Rightarrow>
          (case content of
             JList calls \<Rightarrow> for_calls env calls h1
           | _ \<Rightarrow> (Inr (), emit (Printed (ModelText content)) h1)))"

definition process_query :: "env \<Rightarrow> string \<Rightarrow> history \<Rightarrow> (exn + unit) \<times> history" where
  "process_query env query h =
     (let h1 = emit ListedTools h
      in (case list_tools_resp env h of
            Inl e \<Rightarrow> (Inl e, h1)
          | Inr tools \<Rightarrow>
              (case try_query env query (available_tools tools) h1 of
                 (Inr u, h2) \<Rightarrow> (Inr (), h2)
               | (Inl e, h2) \<Rightarrow>
                   (if is_Exception e
                    then (Inr (), emit (Printed (QueryError (str_exn e))) h2)
                    else (Inl e, h2)))))"

subsection \<open>\<open>chat_loop\<close>\<close>

text \<open>
  Standard input is the list of lines still to be read; \<open>input\<close> raises \<open>EOFError\<close> when
  none is left.
\<close>

record world =
  stdin :: "string list"
  trace :: history

definition py_input :: "world \<Rightarrow> (exn + string) \<times> world" where
  "py_input w =
     (let w1 = w\<lparr>trace := emit (Printed Prompt) (trace w)\<rparr>
      in (case stdin w of
            [] \<Rightarrow> (Inl (Exn EOFError ''EOF when reading a line''), w1)
          | l # ls \<Rightarrow> (Inr l, w1\<lparr>stdin := ls\<rparr>)))"

datatype step = Continue | Break | Propagate exn

text \<open>The \<open>except Exception\<close> of the loop.\<close>

definition loop_except :: "exn \<Rightarrow> world \<Rightarrow> step \<times> world" where
  "loop_except e w =
     (if is_Exception e
      then (Continue, w\<lparr>trace := emit (Printed (LoopError (str_exn e))) (trace w)\<rparr>)
      else (Propagate e, w))"

text \<open>One pass through the body of \<open>while True\<close>.\<close>

definition loop_body :: "env \<Rightarrow> world \<Rightarrow> step \<times> world" where
  "loop_body env w =
     (case py_input w of
        (Inl e, w1) \<Rightarrow> loop_except e w1
      | (Inr line, w1) \<Rightarrow>
          (let query = strip line
           in (if lower query = ''quit'' then (Break, w1)
               else (case process_query env query (trace w1) of
                       (Inl e, h2) \<Rightarrow> loop_except e (w1\<lparr>trace := h2\<rparr>)
                     | (Inr u, h2) \<Rightarrow> (Continue, w1\<lparr>trace := h2\<rparr>)))))"

text \<open>
  The loop has no bound of its own: the first argument counts the passes allowed, and
  \<open>None\<close> says that they did not suffice.
\<close>

datatype loop_exit = Quit | Uncaught exn

fun while_True :: "env \<Rightarrow> nat \<Rightarrow> world \<Rightarrow> (loop_exit \<times> world) option" where
  "while_True env 0 w = None"
| "while_True env (Suc n) w =
     (case loop_body env w of
        (Break, w1) \<Rightarrow> Some (Quit, w1)
      | (Propagate e, w1) \<Rightarrow> Some (Uncaught e, w1)
      | (Continue, w1) \<Rightarrow> while_True env n w1)"

definition chat_loop :: "env \<Rightarrow> nat \<Rightarrow> world \<Rightarrow> (loop_exit \<times> world) option" where
  "chat_loop env fuel w =
     while_True env fuel (w\<lparr>trace := emit (Printed Hint) (emit (Printed Started) (trace w))\<rparr>)"

subsection \<open>\<open>main\<close>\<close>

datatype exit = Returned | Exited int | Raised exn

definition main :: "env \<Rightarrow> nat \<Rightarrow> string list \<Rightarrow> world \<Rightarrow> (exit \<times> world) option" where
  "main env fuel argv w =
     (if length argv < 2
      then Some (Exited 1, w\<lparr>trace := emit (Printed Usage) (trace w)\<rparr>)
      else
        (case connect_to_server env (argv ! 1) (trace w) of
           (Inl e, h1) \<Rightarrow> Some (Raised e, w\<lparr>trace := cleanup h1\<rparr>)
         | (Inr u, h1) \<Rightarrow>
             (case chat_loop env fuel (w\<lparr>trace := h1\<rparr>) of
                None \<Rightarrow> None
              | Some (Quit, w2) \<Rightarrow> Some (Returned, w2\<lparr>trace := cleanup (trace w2)\<rparr>)
              | Some (Uncaught e, w2) \<Rightarrow>
                  Some (Raised e, w2\<lparr>trace := cleanup (trace w2)\<rparr>))))"

section \<open>Reading a history\<close>

text \<open>The tool invocations and the model requests of a history, in the order made.\<close>

fun invoked :: "history \<Rightarrow> (json \<times> json) list" where
  "invoked [] = []"
| "invoked (CalledTool name args # es) = (name, args) # invoked es"
| "invoked (ev # es) = invoked es"

fun posted :: "history \<Rightarrow> request list" where
  "posted [] = []"
| "posted (Posted data # es) = data # posted es"
| "posted (ev # es) = posted es"

fun cleanups :: "history \<Rightarrow> nat" where
  "cleanups [] = 0"
| "cleanups (CleanedUp # es) = Suc (cleanups es)"
| "cleanups (ev # es) = cleanups es"

text \<open>
  What lines 92 to 94 make of one entry: the name and the arguments handed to
  \<open>call_tool\<close>, or nothing when one of the three lines raises.
\<close>

definition planned :: "env \<Rightarrow> json \<Rightarrow> (json \<times> json) option" where
  "planned env call =
     (case call_name call of
        Inl e \<Rightarrow> None
      | Inr name \<Rightarrow>
          (case call_args_raw call of
             Inl e \<Rightarrow> None
           | Inr args_raw \<Rightarrow>
               (case call_args env args_raw of
                  Inl e \<Rightarrow> None
                | Inr args \<Rightarrow> Some (name, args))))"

section \<open>Collaborators for concrete runs\<close>

definition demo_tools :: "tool list" where
  "demo_tools =
     [\<lparr>tool_name = ''get_weather'', tool_description = None,
       tool_inputSchema = JObj [(''type'', JStr ''object'')]\<rparr>,
      \<lparr>tool_name = ''get_time'', tool_description = Some ''Current time'',
       tool_inputSchema = JObj []\<rparr>]"

definition rome_text :: string where
  "rome_text = ''{'' @ [CHR 0x22] @ ''city'' @ [CHR 0x22] @ '':'' @ [CHR 0x22] @ ''Rome'' @
               [CHR 0x22] @ ''}''"

text \<open>
  \<open>json.loads\<close> on the two strings the runs below use, \<open>rome_text\<close> and \<open>{city\<close>; it
  is not used on another string.
\<close>

definition demo_loads :: "string \<Rightarrow> exn + json" where
  "demo_loads s =
     (if s = rome_text then Inr (JObj [(''city'', JStr ''Rome'')])
      else Inl (Exn JSONDecodeError
                  (''Expecting property name enclosed in double quotes: '' @
                   ''line 1 column 2 (char 1)'')))"

definition sunny :: call_result where
  "sunny = \<lparr>result_content = [TextContent ''sunny''], result_isError = False\<rparr>"

text \<open>A tool server that starts and answers, and a model endpoint that answers \<open>r\<close>.\<close>

definition demo_env :: "exn + http_response \<Rightarrow> env" where
  "demo_env r =
     \<lparr>spawn_resp = (\<lambda>h c a. None),
      initialize_resp = (\<lambda>h. None),
      list_tools_resp = (\<lambda>h. Inr demo_tools),
      post_resp = (\<lambda>h data. r),
      call_tool_resp = (\<lambda>h name args. Inr sunny),
      json_loads = demo_loads\<rparr>"

definition ok_response :: "json \<Rightarrow> exn + http_response" where
  "ok_response body = Inr \<lparr>resp_status = 200, resp_text = [], resp_json = Inr body\<rparr>"

definition weather_call :: json where
  "weather_call =
     JObj [(''function'', JObj [(''name'', JStr ''get_weather''), (''arguments'', JStr rome_text)])]"

definition time_call :: json where
  "time_call = JObj [(''name'', JStr ''get_time''), (''arguments'', JObj [])]"

definition broken_call :: json where
  "broken_call =
     JObj [(''function'', JObj [(''name'', JStr ''get_weather''), (''arguments'', JStr ''{city'')])]"

definition tool_calls_body :: "json list \<Rightarrow> json" where
  "tool_calls_body calls = JObj [(''message'', JObj [(''tool_calls'', JList calls)])]"

definition hello_body :: json where
  "hello_body = JObj [(''message'', JObj [(''content'', JStr ''Hello!'')])]"

definition error_500 :: "exn + http_response" where
  "error_500 =
     Inr \<lparr>resp_status = 500, resp_text = ''internal error'',
          resp_json = Inl (Exn OtherException ''not JSON'')\<rparr>"

text \<open>The same, with a tool server whose \<open>list_tools\<close> fails once the session runs.\<close>

definition closed_env :: "exn + http_response \<Rightarrow> env" where
  "closed_env r = (demo_env r)\<lparr>list_tools_resp := (\<lambda>h. Inl (Exn OtherException ''Connection closed''))\<rparr>"

definition console_world :: "string list \<Rightarrow> world" where
  "console_world lines = \<lparr>stdin = lines, trace = []\<rparr>"

section \<open>Properties of the parts\<close>

subsection \<open>Strings and dictionaries\<close>

lemma endswith_suffix: "endswith s suf = suffix suf s"
proof
  assume "endswith s suf"
  then have "s = take (length s - length suf) s @ suf"
    by (metis append_take_drop_id endswith_def)
  then show "suffix suf s" by (metis suffixI)
next
  assume "suffix suf s"
  then obtain p where "s = p @ suf" by (auto simp: suffix_def)
  then show "endswith s suf" by (simp add: endswith_def)
qed

lemma js_not_py: "\<not> endswith ''tool_server.js'' ''.py''"
  by (simp add: endswith_def)

lemma py_in_dict: "py_in k (JObj kvs) = Inr (map_of kvs k \<noteq> None)"
  by (simp add: map_of_eq_None_iff)

lemma str_int_500: "str_int 500 = ''500''"
  by code_simp

lemma of_digit_char: "d < 10 \<Longrightarrow> (of_char (digit_char d) :: nat) = 48 + d"
  by (simp add: digit_char_def)

lemma is_digit_digit_char: "d < 10 \<Longrightarrow> is_digit (digit_char d)"
  by (simp add: is_digit_def of_digit_char)

lemma str_nat_digits: "\<forall>c \<in> set (str_nat n). is_digit c"
proof (induction n rule: str_nat.induct)
  case (1 n)
  show ?case
  proof (cases "n < 10")
    case True
    then show ?thesis by (subst str_nat.simps) (simp add: is_digit_digit_char)
  next
    case False
    then have "\<forall>c \<in> set (str_nat (n div 10)). is_digit c" using 1 by simp
    moreover have "is_digit (digit_char (n mod 10))" by (simp add: is_digit_digit_char)
    ultimately show ?thesis using False by (subst str_nat.simps) auto
  qed
qed

lemma str_nat_nonempty: "str_nat n \<noteq> []"
  by (subst str_nat.simps) simp

lemma digits_value_append:
  "digits_value acc (xs @ ys) = digits_value (digits_value acc xs) ys"
  by (induction xs arbitrary: acc) simp_all

lemma digits_value_str_nat: "digits_value 0 (str_nat n) = n"
proof (induction n rule: str_nat.induct)
  case (1 n)
  show ?case
  proof (cases "n < 10")
    case True
    then show ?thesis by (subst str_nat.simps) (simp add: of_digit_char)
  next
    case False
    then have "digits_value 0 (str_nat (n div 10)) = n div 10" using 1 by simp
    then show ?thesis using False
      by (subst str_nat.simps) (simp add: digits_value_append of_digit_char)
  qed
qed

lemma str_nat_inj: "str_nat m = str_nat n \<Longrightarrow> m = n"
  by (metis digits_value_str_nat)

lemma minus_not_digit: "\<not> is_digit CHR ''-''"
  by (simp add: is_digit_def)

lemma space_not_digit: "\<not> is_digit CHR '' ''"
  by (simp add: is_digit_def)

lemma str_nat_no_minus_head: "str_nat n \<noteq> CHR ''-'' # cs"
  using str_nat_digits [of n] minus_not_digit by (metis list.set_intros(1))

lemma str_int_inj: "str_int i = str_int j \<Longrightarrow> i = j"
  by (auto simp: str_int_def str_nat_no_minus_head str_nat_no_minus_head [symmetric]
           dest!: str_nat_inj split: if_splits)

lemma str_int_no_space: "CHR '' '' \<notin> set (str_int i)"
  using str_nat_digits space_not_digit by (auto simp: str_int_def)

lemma split_at_first_space:
  assumes "a @ CHR '' '' # r = b @ CHR '' '' # r'"
    and "CHR '' '' \<notin> set a" and "CHR '' '' \<notin> set b"
  shows "a = b \<and> r = r'"
  using assms
proof (induction a arbitrary: b)
  case Nil
  then show ?case by (cases b) auto
next
  case (Cons x a)
  then show ?case by (cases b) auto
qed

lemma gateway_text_inj:
  assumes "''Errore Ollama: '' @ str_int st @ '' - '' @ tx =
           ''Errore Ollama: '' @ str_int st' @ '' - '' @ tx'"
  shows "st = st' \<and> tx = tx'"
proof -
  from assms have "str_int st @ CHR '' '' # (''- '' @ tx) = str_int st' @ CHR '' '' # (''- '' @ tx')"
    by simp
  then have "str_int st = str_int st' \<and> ''- '' @ tx = ''- '' @ tx'"
    using split_at_first_space str_int_no_space by blast
  then show ?thesis using str_int_inj by simp
qed

subsection \<open>\<open>connect_to_server\<close>\<close>

text \<open>
  C7. For a script path that does not end in \<open>.py\<close>, \<open>connect_to_server\<close> raises the
  \<open>ValueError\<close> and the history is the one it was called with: no subprocess has been
  spawned, no handshake made and nothing sent.
\<close>

theorem connect_rejects_other_extension:
  assumes "\<not> endswith server_script_path ''.py''"
  shows "connect_to_server env server_script_path h =
           (Inl (Exn ValueError ''Server script must be a .py file''), h)"
  using assms by (simp add: connect_to_server_def)

theorem connect_rejects_other_extension_witness:
  "\<not> endswith ''tool_server.js'' ''.py'' \<and>
   connect_to_server (demo_env error_500) ''tool_server.js'' [] =
     (Inl (Exn ValueError ''Server script must be a .py file''), [])"
  using connect_rejects_other_extension [OF js_not_py, of "demo_env error_500" "[]"] js_not_py
  by simp

subsection \<open>\<open>call_ollama\<close>\<close>

text \<open>
  C2. When the endpoint answers with status 200 and the body is an object whose
  \<open>message\<close> is an object (an empty one when the body has none), \<open>call_ollama\<close>
  returns the value of \<open>tool_calls\<close> as it is when the message has that field, and
  otherwise the value of \<open>content\<close>, or the empty string when there is no \<open>content\<close>.
\<close>

theorem call_ollama_status_200:
  assumes "post_resp env h (build_request query tools) = Inr response"
    and "resp_status response = 200"
    and "resp_json response = Inr (JObj response_data)"
    and "(case map_of response_data ''message'' of None \<Rightarrow> JObj [] | Some m \<Rightarrow> m) =
           JObj message"
  shows "fst (call_ollama env query tools h) =
           Inr (case map_of message ''tool_calls'' of
                  Some tool_calls \<Rightarrow> tool_calls
                | None \<Rightarrow> (case map_of message ''content'' of Some c \<Rightarrow> c | None \<Rightarrow> JStr []))"
  using assms
  by (cases "map_of message ''tool_calls''")
     (simp_all add: call_ollama_def on_response_def Let_def py_in_dict del: py_in.simps)

theorem call_ollama_status_200_witness:
  "post_resp (demo_env (ok_response hello_body)) [] (build_request ''hi'' []) =
     ok_response hello_body \<and>
   fst (call_ollama (demo_env (ok_response hello_body)) ''hi'' [] []) = Inr (JStr ''Hello!'') \<and>
   fst (call_ollama (demo_env (ok_response (tool_calls_body [time_call]))) ''hi'' [] []) =
     Inr (JList [time_call]) \<and>
   fst (call_ollama (demo_env (ok_response (JObj []))) ''hi'' [] []) = Inr (JStr [])"
  using call_ollama_status_200 [of "demo_env (ok_response hello_body)" "[]" "''hi''" "[]"
      "\<lparr>resp_status = 200, resp_text = [], resp_json = Inr hello_body\<rparr>"
      "[(''message'', JObj [(''content'', JStr ''Hello!'')])]" "[(''content'', JStr ''Hello!'')]"]
    call_ollama_status_200 [of "demo_env (ok_response (tool_calls_body [time_call]))" "[]"
      "''hi''" "[]"
      "\<lparr>resp_status = 200, resp_text = [], resp_json = Inr (tool_calls_body [time_call])\<rparr>"
      "[(''message'', JObj [(''tool_calls'', JList [time_call])])]"
      "[(''tool_calls'', JList [time_call])]"]
    call_ollama_status_200 [of "demo_env (ok_response (JObj []))" "[]" "''hi''" "[]"
      "\<lparr>resp_status = 200, resp_text = [], resp_json = Inr (JObj [])\<rparr>" "[]" "[]"]
  by (simp add: demo_env_def ok_response_def hello_body_def tool_calls_body_def)

text \<open>
  C3. When the endpoint answers with a status other than 200, \<open>call_ollama\<close> returns no
  value: it raises an exception whose text is \<open>Errore Ollama: \<close>, the status in decimal,
  \<open> - \<close> and the body text of the response. The text fixes both: no other status and
  no other body text give it.
\<close>

theorem call_ollama_other_status:
  assumes "post_resp env h (build_request query tools) = Inr response"
    and "resp_status response \<noteq> 200"
  shows "fst (call_ollama env query tools h) =
           Inl (Exn PlainException
                  (''Errore Ollama: '' @ str_int (resp_status response) @ '' - '' @
                   resp_text response)) \<and>
         (\<forall>st tx. ''Errore Ollama: '' @ str_int st @ '' - '' @ tx =
                   ''Errore Ollama: '' @ str_int (resp_status response) @ '' - '' @
                   resp_text response
            \<longrightarrow> st = resp_status response \<and> tx = resp_text response)"
  using assms gateway_text_inj
  by (simp add: call_ollama_def on_response_def Let_def)

theorem call_ollama_other_status_witness:
  "post_resp (demo_env error_500) [] (build_request ''hi'' []) = error_500 \<and>
   fst (call_ollama (demo_env error_500) ''hi'' [] []) =
     Inl (Exn PlainException ''Errore Ollama: 500 - internal error'')"
  using call_ollama_other_status [of "demo_env error_500" "[]" "''hi''" "[]"
      "\<lparr>resp_status = 500, resp_text = ''internal error'',
        resp_json = Inl (Exn OtherException ''not JSON'')\<rparr>"]
  by (simp add: demo_env_def error_500_def str_int_500)

subsection \<open>Name and arguments of a tool call\<close>

text \<open>
  C9. For an entry that is an object, with a \<open>function\<close> field that is an object or with
  none: the name is \<open>function.name\<close> when that is present and truthy, and otherwise the
  top-level \<open>name\<close> (\<open>None\<close> when absent); the arguments are \<open>function.arguments\<close> when
  present and truthy, and otherwise the top-level \<open>arguments\<close>, an empty dictionary when
  absent.
\<close>

theorem tool_call_resolution:
  "(map_of call ''function'' = Some (JObj f) \<longrightarrow>
      call_name (JObj call) =
        Inr (let nested = (case map_of f ''name'' of None \<Rightarrow> JNull | Some n \<Rightarrow> n)
             in if truthy nested then nested
                else (case map_of call ''name'' of None \<Rightarrow> JNull | Some n \<Rightarrow> n)) \<and>
      call_args_raw (JObj call) =
        Inr (let nested = (case map_of f ''arguments'' of None \<Rightarrow> JNull | Some a \<Rightarrow> a)
             in if truthy nested then nested
                else (case map_of call ''arguments'' of None \<Rightarrow> JObj [] | Some a \<Rightarrow> a))) \<and>
   (map_of call ''function'' = None \<longrightarrow>
      call_name (JObj call) = Inr (case map_of call ''name'' of None \<Rightarrow> JNull | Some n \<Rightarrow> n) \<and>
      call_args_raw (JObj call) =
        Inr (case map_of call ''arguments'' of None \<Rightarrow> JObj [] | Some a \<Rightarrow> a))"
  by (simp add: call_name_def call_args_raw_def Let_def)

theorem tool_call_resolution_witness:
  "call_name weather_call = Inr (JStr ''get_weather'') \<and>
   call_args_raw weather_call = Inr (JStr rome_text) \<and>
   call_name time_call = Inr (JStr ''get_time'') \<and>
   call_args_raw time_call = Inr (JObj []) \<and>
   call_name (JObj [(''function'', JObj [(''name'', JStr [])]), (''name'', JStr ''get_time'')]) =
     Inr (JStr ''get_time'')"
  using tool_call_resolution
          [of "[(''function'',
                 JObj [(''name'', JStr ''get_weather''), (''arguments'', JStr rome_text)])]"
              "[(''name'', JStr ''get_weather''), (''arguments'', JStr rome_text)]"]
        tool_call_resolution [of "[(''name'', JStr ''get_time''), (''arguments'', JObj [])]"]
        tool_call_resolution
          [of "[(''function'', JObj [(''name'', JStr [])]), (''name'', JStr ''get_time'')]"
              "[(''name'', JStr [])]"]
  by (simp add: weather_call_def time_call_def rome_text_def)

section \<open>Histories\<close>

lemma invoked_append: "invoked (a @ b) = invoked a @ invoked b"
  by (induction a rule: invoked.induct) simp_all

lemma posted_append: "posted (a @ b) = posted a @ posted b"
  by (induction a rule: posted.induct) simp_all

lemma cleanups_append: "cleanups (a @ b) = cleanups a + cleanups b"
  by (induction a rule: cleanups.induct) simp_all

lemma invoked_emit: "invoked (emit ev h) = invoked h @ invoked [ev]"
  by (simp add: emit_def invoked_append)

lemma posted_emit: "posted (emit ev h) = posted h @ posted [ev]"
  by (simp add: emit_def posted_append)

lemma cleanups_emit: "cleanups (emit ev h) = cleanups h + cleanups [ev]"
  by (simp add: emit_def cleanups_append)

section \<open>Stripping\<close>

lemma rstrip_prefix: "prefix (rstrip t) t"
proof -
  have "rev t = takeWhile isspace (rev t) @ dropWhile isspace (rev t)" by simp
  then have "t = rev (dropWhile isspace (rev t)) @ rev (takeWhile isspace (rev t))"
    by (metis rev_append rev_rev_ident)
  then show ?thesis unfolding rstrip_def by (metis prefixI)
qed

lemma rstrip_last: "rstrip t \<noteq> [] \<Longrightarrow> \<not> isspace (last (rstrip t))"
  unfolding rstrip_def by (simp add: last_rev hd_dropWhile)

lemma lstrip_hd: "lstrip s \<noteq> [] \<Longrightarrow> \<not> isspace (hd (lstrip s))"
  unfolding lstrip_def by (simp add: hd_dropWhile)

lemma strip_edges:
  assumes "strip s \<noteq> []"
  shows "\<not> isspace (hd (strip s)) \<and> \<not> isspace (last (strip s))"
proof -
  obtain r where r: "lstrip s = strip s @ r"
    using rstrip_prefix [of "lstrip s"] by (auto simp: strip_def prefix_def)
  with assms have "hd (strip s) = hd (lstrip s)" and "lstrip s \<noteq> []" by auto
  then have "\<not> isspace (hd (strip s))" using lstrip_hd by metis
  moreover have "\<not> isspace (last (strip s))"
    using assms rstrip_last [of "lstrip s"] by (simp add: strip_def)
  ultimately show ?thesis by simp
qed

lemma strip_decomp:
  "\<exists>a b. s = a @ strip s @ b \<and> (\<forall>c \<in> set a. isspace c) \<and> (\<forall>c \<in> set b. isspace c)"
proof -
  let ?t = "lstrip s"
  have 1: "s = takeWhile isspace s @ ?t" by (simp add: lstrip_def)
  have "rev ?t = takeWhile isspace (rev ?t) @ dropWhile isspace (rev ?t)" by simp
  then have 2: "?t = strip s @ rev (takeWhile isspace (rev ?t))"
    unfolding strip_def rstrip_def by (metis rev_append rev_rev_ident)
  have 3: "\<forall>c \<in> set (takeWhile isspace s). isspace c" by (auto dest: set_takeWhileD)
  have 4: "\<forall>c \<in> set (rev (takeWhile isspace (rev ?t))). isspace c"
    by (auto dest: set_takeWhileD)
  from 1 2 have "s = takeWhile isspace s @ strip s @ rev (takeWhile isspace (rev ?t))" by simp
  with 3 4 show ?thesis by blast
qed

section \<open>The loop over the tool calls\<close>

lemma for_calls_unplanned:
  assumes "planned env call = None"
  shows "\<exists>e. for_calls env (call # rest) h = (Inl e, h)"
  using assms by (auto simp: planned_def split: sum.splits)

lemma for_calls_planned:
  assumes "planned env call = Some (name, args)"
  shows "for_calls env (call # rest) h =
           (let h1 = emit (Printed (ToolNotice name args)) h;
                h2 = emit (CalledTool name args) h1
            in (case call_tool_resp env h1 name args of
                  Inl e \<Rightarrow> (Inl e, h2)
                | Inr result \<Rightarrow>
                    (case result_text result of
                       Inl e \<Rightarrow> (Inl e, h2)
                     | Inr shown \<Rightarrow>
                         for_calls env rest (emit (Printed (ToolResult name shown)) h2))))"
  using assms by (auto simp: planned_def split: sum.splits)

lemma for_calls_invoked:
  "\<exists>k \<le> length calls.
     invoked (snd (for_calls env calls h)) =
       invoked h @ map the (take k (map (planned env) calls)) \<and>
     (\<forall>j < k. planned env (calls ! j) \<noteq> None) \<and>
     (fst (for_calls env calls h) = Inr () \<longrightarrow> k = length calls)"
proof (induction calls arbitrary: h)
  case Nil
  show ?case by simp
next
  case (Cons call rest)
  show ?case
  proof (cases "planned env call")
    case None
    then obtain e where "for_calls env (call # rest) h = (Inl e, h)"
      using for_calls_unplanned by blast
    then show ?thesis by (intro exI [of _ 0]) simp
  next
    case (Some p)
    obtain name args where p: "p = (name, args)" by (cases p)
    let ?h1 = "emit (Printed (ToolNotice name args)) h"
    let ?h2 = "emit (CalledTool name args) ?h1"
    have inv2: "invoked ?h2 = invoked h @ [(name, args)]"
      by (simp add: invoked_emit)
    note eq = for_calls_planned [OF Some [unfolded p], of rest h]
    show ?thesis
    proof (cases "call_tool_resp env ?h1 name args")
      case (Inl e)
      then have "for_calls env (call # rest) h = (Inl e, ?h2)"
        using eq by (simp add: Let_def)
      then show ?thesis using inv2 Some p
        by (intro exI [of _ 1]) simp
    next
      case (Inr result)
      show ?thesis
      proof (cases "result_text result")
        case (Inl e)
        then have "for_calls env (call # rest) h = (Inl e, ?h2)"
          using eq Inr by (simp add: Let_def)
        then show ?thesis using inv2 Some p
          by (intro exI [of _ 1]) simp
      next
        case shown: (Inr shown)
        let ?h3 = "emit (Printed (ToolResult name shown)) ?h2"
        have step: "for_calls env (call # rest) h = for_calls env rest ?h3"
          using eq Inr shown by (simp add: Let_def)
        have inv3: "invoked ?h3 = invoked h @ [(name, args)]"
          by (simp add: invoked_emit)
        from Cons.IH [of ?h3] obtain k where k: "k \<le> length rest"
          "invoked (snd (for_calls env rest ?h3)) =
             invoked ?h3 @ map the (take k (map (planned env) rest))"
          "\<forall>j < k. planned env (rest ! j) \<noteq> None"
          "fst (for_calls env rest ?h3) = Inr () \<longrightarrow> k = length rest"
          by blast
        have "\<forall>j < Suc k. planned env ((call # rest) ! j) \<noteq> None"
          using k(3) Some by (auto simp: nth_Cons split: nat.splits)
        then show ?thesis using k step inv3 Some p
          by (intro exI [of _ "Suc k"]) simp
      qed
    qed
  qed
qed

lemma for_calls_all:
  assumes "\<forall>c \<in> set calls. planned env c \<noteq> None"
    and "\<forall>h' name args. \<exists>r. call_tool_resp env h' name args = Inr r \<and> result_content r \<noteq> []"
  shows "fst (for_calls env calls h) = Inr ()"
  using assms(1)
proof (induction calls arbitrary: h)
  case Nil
  show ?case by simp
next
  case (Cons call rest)
  then obtain name args where p: "planned env call = Some (name, args)" by auto
  let ?h1 = "emit (Printed (ToolNotice name args)) h"
  obtain r where r: "call_tool_resp env ?h1 name args = Inr r" "result_content r \<noteq> []"
    using assms(2) by blast
  then obtain shown where s: "result_text r = Inr shown"
    by (cases "result_content r") (simp_all add: result_text_def)
  show ?case
    using for_calls_planned [OF p, of rest h] r s Cons by (simp add: Let_def)
qed

lemma for_calls_posted: "posted (snd (for_calls env calls h)) = posted h"
proof (induction calls arbitrary: h)
  case Nil
  show ?case by simp
next
  case (Cons call rest)
  show ?case
  proof (cases "planned env call")
    case None
    then show ?thesis using for_calls_unplanned [of env call rest h] by auto
  next
    case (Some p)
    obtain name args where p: "p = (name, args)" by (cases p)
    show ?thesis
      using for_calls_planned [OF Some [unfolded p], of rest h] Cons.IH
      by (auto simp: Let_def posted_emit split: sum.splits)
  qed
qed

lemma for_calls_cleanups: "cleanups (snd (for_calls env calls h)) = cleanups h"
proof (induction calls arbitrary: h)
  case Nil
  show ?case by simp
next
  case (Cons call rest)
  show ?case
  proof (cases "planned env call")
    case None
    then show ?thesis using for_calls_unplanned [of env call rest h] by auto
  next
    case (Some p)
    obtain name args where p: "p = (name, args)" by (cases p)
    show ?thesis
      using for_calls_planned [OF Some [unfolded p], of rest h] Cons.IH
      by (auto simp: Let_def cleanups_emit split: sum.splits)
  qed
qed

lemma call_ollama_snd:
  "snd (call_ollama env query tools h) = emit (Posted (build_request query tools)) h"
  by (simp add: call_ollama_def Let_def split: sum.splits)

lemma planned_decoded:
  assumes "planned env call = Some (name, args)" and "call_args_raw call = Inr (JStr s)"
  shows "json_loads env s = Inr args"
  using assms by (auto simp: planned_def call_args_def split: sum.splits)

lemma planned_malformed:
  assumes "call_args_raw call = Inr (JStr s)" and "json_loads env s = Inl e"
  shows "planned env call = None"
  using assms by (auto simp: planned_def call_args_def split: sum.splits)

lemma process_query_tool_calls:
  assumes "list_tools_resp env h = Inr tools"
    and "call_ollama env query (available_tools tools) (emit ListedTools h) = (Inr (JList calls), h1)"
  shows "process_query env query h =
           (case for_calls env calls h1 of
              (Inr u, h2) \<Rightarrow> (Inr (), h2)
            | (Inl e, h2) \<Rightarrow>
                (if is_Exception e
                 then (Inr (), emit (Printed (QueryError (str_exn e))) h2)
                 else (Inl e, h2)))"
  using assms by (simp add: process_query_def try_query_def Let_def)

lemma process_query_raises:
  assumes "fst (process_query env query h) = Inl e"
  shows "list_tools_resp env h = Inl e \<or> \<not> is_Exception e"
  using assms
  by (auto simp: process_query_def Let_def split: sum.splits prod.splits if_splits)

lemma for_calls_single_invoked:
  "invoked (snd (for_calls env [c] h)) =
     invoked h @ (case planned env c of None \<Rightarrow> [] | Some p \<Rightarrow> [p])"
proof (cases "planned env c")
  case None
  then show ?thesis using for_calls_unplanned [of env c "[]" h] by auto
next
  case (Some p)
  obtain name args where p: "p = (name, args)" by (cases p)
  show ?thesis
    using for_calls_planned [OF Some [unfolded p], of "[]" h] Some p
    by (auto simp: Let_def invoked_emit split: sum.splits)
qed

lemma for_calls_single_ok:
  assumes "fst (for_calls env [c] h) = Inr u"
  shows "planned env c \<noteq> None"
  using assms for_calls_unplanned [of env c "[]" h] by (cases "planned env c") auto

lemma for_calls_Cons:
  "for_calls env (call # rest) h =
     (case for_calls env [call] h of
        (Inl e, h') \<Rightarrow> (Inl e, h')
      | (Inr u, h') \<Rightarrow> for_calls env rest h')"
  by (simp add: Let_def split: sum.splits)

lemma for_calls_split:
  "\<exists>k hk. k \<le> length calls \<and>
     for_calls env (take k calls) h = (Inr (), hk) \<and>
     invoked hk = invoked h @ map the (map (planned env) (take k calls)) \<and>
     (\<forall>j < k. planned env (calls ! j) \<noteq> None) \<and>
     (if k = length calls then for_calls env calls h = (Inr (), hk)
      else (\<exists>e h'. for_calls env [calls ! k] hk = (Inl e, h') \<and>
              for_calls env calls h = (Inl e, h') \<and>
              invoked h' =
                invoked hk @ (case planned env (calls ! k) of None \<Rightarrow> [] | Some p \<Rightarrow> [p])))"
proof (induction calls arbitrary: h)
  case Nil
  show ?case by simp
next
  case (Cons call rest)
  obtain r h1 where one: "for_calls env [call] h = (r, h1)" by (cases "for_calls env [call] h")
  have inv1: "invoked h1 =
                invoked h @ (case planned env call of None \<Rightarrow> [] | Some p \<Rightarrow> [p])"
    using for_calls_single_invoked [of env call h] one by simp
  show ?case
  proof (cases r)
    case (Inl e)
    then have "for_calls env (call # rest) h = (Inl e, h1)"
      using one by (subst for_calls_Cons) (simp del: for_calls.simps(2))
    then have whole: "for_calls env (call # rest) h = (Inl e, h1)" .
    have single: "for_calls env [call] h = (Inl e, h1)" using one Inl by simp
    have "0 \<le> length (call # rest) \<and>
     for_calls env (take 0 (call # rest)) h = (Inr (), h) \<and>
     invoked h = invoked h @ map the (map (planned env) (take 0 (call # rest))) \<and>
     (\<forall>j < (0::nat). planned env ((call # rest) ! j) \<noteq> None) \<and>
     (if 0 = length (call # rest) then for_calls env (call # rest) h = (Inr (), h)
      else (\<exists>e h'. for_calls env [(call # rest) ! 0] h = (Inl e, h') \<and>
              for_calls env (call # rest) h = (Inl e, h') \<and>
              invoked h' =
                invoked h @
                (case planned env ((call # rest) ! 0) of None \<Rightarrow> [] | Some p \<Rightarrow> [p])))"
      using whole single inv1 by (simp del: for_calls.simps(2))
    then show ?thesis by blast
  next
    case (Inr u)
    then have pl: "planned env call \<noteq> None"
      using for_calls_single_ok [of env call h u] one by simp
    then have inv1': "invoked h1 = invoked h @ [the (planned env call)]"
      using inv1 by auto
    have step: "\<And>cs. for_calls env (call # cs) h = for_calls env cs h1"
      using one Inr by (subst for_calls_Cons) (simp del: for_calls.simps(2))
    from Cons.IH [of h1] obtain k hk where k: "k \<le> length rest"
      "for_calls env (take k rest) h1 = (Inr (), hk)"
      "invoked hk = invoked h1 @ map the (map (planned env) (take k rest))"
      "\<forall>j < k. planned env (rest ! j) \<noteq> None"
      "if k = length rest then for_calls env rest h1 = (Inr (), hk)
       else (\<exists>e h'. for_calls env [rest ! k] hk = (Inl e, h') \<and>
               for_calls env rest h1 = (Inl e, h') \<and>
               invoked h' =
                 invoked hk @ (case planned env (rest ! k) of None \<Rightarrow> [] | Some p \<Rightarrow> [p]))"
      by blast
    have a: "Suc k \<le> length (call # rest)" using k(1) by simp
    have b: "for_calls env (take (Suc k) (call # rest)) h = (Inr (), hk)"
      using k(2) step [of "take k rest"] by simp
    have c: "invoked hk = invoked h @ map the (map (planned env) (take (Suc k) (call # rest)))"
      using k(3) inv1' by simp
    have d: "\<forall>j < Suc k. planned env ((call # rest) ! j) \<noteq> None"
      using k(4) pl by (auto simp: nth_Cons split: nat.splits)
    have e: "if Suc k = length (call # rest) then for_calls env (call # rest) h = (Inr (), hk)
       else (\<exists>e h'. for_calls env [(call # rest) ! Suc k] hk = (Inl e, h') \<and>
               for_calls env (call # rest) h = (Inl e, h') \<and>
               invoked h' =
                 invoked hk @
                 (case planned env ((call # rest) ! Suc k) of None \<Rightarrow> [] | Some p \<Rightarrow> [p]))"
      using k(5) step [of rest]
      by (simp only: nth_Cons_Suc length_Cons nat.inject)
    show ?thesis
      using a b c d e by (intro exI [of _ "Suc k"] exI [of _ hk]) blast
  qed
qed

lemma for_calls_append:
  "for_calls env (xs @ ys) h =
     (case for_calls env xs h of
        (Inl e, h') \<Rightarrow> (Inl e, h')
      | (Inr u, h') \<Rightarrow> for_calls env ys h')"
proof (induction xs arbitrary: h)
  case Nil
  show ?case by simp
next
  case (Cons x xs)
  obtain r h1 where one: "for_calls env [x] h = (r, h1)" by (cases "for_calls env [x] h")
  have a: "for_calls env (x # (xs @ ys)) h =
             (case r of Inl e \<Rightarrow> (Inl e, h1) | Inr u \<Rightarrow> for_calls env (xs @ ys) h1)"
    using one by (subst for_calls_Cons) (simp del: for_calls.simps(2) split: sum.splits)
  have b: "for_calls env (x # xs) h =
             (case r of Inl e \<Rightarrow> (Inl e, h1) | Inr u \<Rightarrow> for_calls env xs h1)"
    using one by (subst for_calls_Cons) (simp del: for_calls.simps(2) split: sum.splits)
  show ?case
  proof (cases r)
    case (Inl e)
    then show ?thesis using a b by (simp del: for_calls.simps(2))
  next
    case (Inr u)
    then show ?thesis using a b Cons.IH [of h1] by (simp del: for_calls.simps(2))
  qed
qed

lemma first_raising_entry_unique:
  assumes "k < k'" and "k' \<le> length calls"
    and "for_calls env (take k calls) h = (Inr (), hk)"
    and "for_calls env [calls ! k] hk = (Inl e, h')"
  shows "for_calls env (take k' calls) h = (Inl e, h')"
proof -
  have "take k' calls = take k calls @ [calls ! k] @ take (k' - Suc k) (drop (Suc k) calls)"
    using assms(1,2)
    by (metis Suc_leI append_Cons append_Nil le_add_diff_inverse less_le_trans
        take_Suc_conv_app_nth take_add append_assoc)
  then show ?thesis
    using assms(3,4)
    by (simp only: for_calls_append [of env "take k calls"] for_calls_append [of env "[calls ! k]"])
       simp
qed

text \<open>
  C1, as the code has it. For a response that is a list of tool calls there is one \<open>k\<close>
  such that the first \<open>k\<close> entries are processed without an exception and, unless \<open>k\<close>
  is the length of the list, entry \<open>k\<close> raises. The tools invoked are then those of the
  first \<open>k\<close> entries, in list order and each once, with the name and arguments that
  lines 92 to 94 make of the entry, followed by that of entry \<open>k\<close> when it raises in or
  after its invocation; no later entry is invoked. When no entry raises, that is the whole
  list and \<open>process_query\<close> returns. When entry \<open>k\<close> raises an \<open>Exception\<close>,
  \<open>process_query\<close> prints its text and returns. Arguments given as a string reach
  \<open>call_tool\<close> as what \<open>json.loads\<close> made of them; an entry whose string does not decode
  is not invoked.
\<close>

theorem tool_calls_dispatched:
  assumes "list_tools_resp env h = Inr tools"
    and "call_ollama env query (available_tools tools) (emit ListedTools h) =
           (Inr (JList calls), h1)"
  shows "(\<exists>k hk. k \<le> length calls \<and>
            for_calls env (take k calls) h1 = (Inr (), hk) \<and>
            (\<forall>j < k. planned env (calls ! j) \<noteq> None) \<and>
            (if k = length calls
             then process_query env query h = (Inr (), hk) \<and>
                  invoked hk = invoked h @ map the (map (planned env) calls)
             else (\<exists>e h'. for_calls env [calls ! k] hk = (Inl e, h') \<and>
                     process_query env query h =
                       (if is_Exception e
                        then (Inr (), h' @ [Printed (QueryError (str_exn e))])
                        else (Inl e, h')) \<and>
                     invoked (snd (process_query env query h)) =
                       invoked h @ map the (map (planned env) (take k calls)) @
                       (case planned env (calls ! k) of None \<Rightarrow> [] | Some p \<Rightarrow> [p])))) \<and>
         (\<forall>c name args s. planned env c = Some (name, args) \<and> call_args_raw c = Inr (JStr s)
            \<longrightarrow> json_loads env s = Inr args) \<and>
         (\<forall>c s e. call_args_raw c = Inr (JStr s) \<and> json_loads env s = Inl e
            \<longrightarrow> planned env c = None)"
proof -
  have h1: "h1 = emit (Posted (build_request query (available_tools tools))) (emit ListedTools h)"
    using assms(2) call_ollama_snd [of env query "available_tools tools" "emit ListedTools h"]
    by simp
  then have inv1: "invoked h1 = invoked h" by (simp add: invoked_emit)
  note pq = process_query_tool_calls [OF assms]
  from for_calls_split [of calls env h1] obtain k hk where k: "k \<le> length calls"
    "for_calls env (take k calls) h1 = (Inr (), hk)"
    "invoked hk = invoked h1 @ map the (map (planned env) (take k calls))"
    "\<forall>j < k. planned env (calls ! j) \<noteq> None"
    "if k = length calls then for_calls env calls h1 = (Inr (), hk)
     else (\<exists>e h'. for_calls env [calls ! k] hk = (Inl e, h') \<and>
             for_calls env calls h1 = (Inl e, h') \<and>
             invoked h' =
               invoked hk @ (case planned env (calls ! k) of None \<Rightarrow> [] | Some p \<Rightarrow> [p]))"
    by blast
  have last: "if k = length calls
             then process_query env query h = (Inr (), hk) \<and>
                  invoked hk = invoked h @ map the (map (planned env) calls)
             else (\<exists>e h'. for_calls env [calls ! k] hk = (Inl e, h') \<and>
                     process_query env query h =
                       (if is_Exception e
                        then (Inr (), h' @ [Printed (QueryError (str_exn e))])
                        else (Inl e, h')) \<and>
                     invoked (snd (process_query env query h)) =
                       invoked h @ map the (map (planned env) (take k calls)) @
                       (case planned env (calls ! k) of None \<Rightarrow> [] | Some p \<Rightarrow> [p]))"
  proof (cases "k = length calls")
    case True
    then have "for_calls env calls h1 = (Inr (), hk)" using k(5) by simp
    then have "process_query env query h = (Inr (), hk)" unfolding pq by simp
    then show ?thesis using True k(3) inv1 by simp
  next
    case False
    then obtain e h' where e: "for_calls env [calls ! k] hk = (Inl e, h')"
      "for_calls env calls h1 = (Inl e, h')"
      "invoked h' =
         invoked hk @ (case planned env (calls ! k) of None \<Rightarrow> [] | Some p \<Rightarrow> [p])"
      using k(5) by auto
    have res: "process_query env query h =
                 (if is_Exception e
                  then (Inr (), h' @ [Printed (QueryError (str_exn e))])
                  else (Inl e, h'))"
      unfolding pq using e(2) by (simp add: emit_def)
    have "invoked (snd (process_query env query h)) = invoked h'"
      unfolding res by (simp add: invoked_append)
    then have "invoked (snd (process_query env query h)) =
                 invoked h @ map the (map (planned env) (take k calls)) @
                 (case planned env (calls ! k) of None \<Rightarrow> [] | Some p \<Rightarrow> [p])"
      using e(3) k(3) inv1 by simp
    then show ?thesis using False e(1) res by auto
  qed
  have first: "\<exists>k hk. k \<le> length calls \<and>
            for_calls env (take k calls) h1 = (Inr (), hk) \<and>
            (\<forall>j < k. planned env (calls ! j) \<noteq> None) \<and>
            (if k = length calls
             then process_query env query h = (Inr (), hk) \<and>
                  invoked hk = invoked h @ map the (map (planned env) calls)
             else (\<exists>e h'. for_calls env [calls ! k] hk = (Inl e, h') \<and>
                     process_query env query h =
                       (if is_Exception e
                        then (Inr (), h' @ [Printed (QueryError (str_exn e))])
                        else (Inl e, h')) \<and>
                     invoked (snd (process_query env query h)) =
                       invoked h @ map the (map (planned env) (take k calls)) @
                       (case planned env (calls ! k) of None \<Rightarrow> [] | Some p \<Rightarrow> [p])))"
    using k(1) k(2) k(4) last by (intro exI [of _ k] exI [of _ hk] conjI)
  show ?thesis
    using first planned_decoded planned_malformed by blast
qed

lemmas demo_simps =
  demo_env_def ok_response_def tool_calls_body_def weather_call_def time_call_def
  broken_call_def demo_loads_def rome_text_def sunny_def hello_body_def error_500_def

lemmas run_simps =
  process_query_def try_query_def call_ollama_def on_response_def Let_def emit_def
  call_name_def call_args_raw_def call_args_def result_text_def planned_def

lemma partial_invoked:
  "invoked (snd (process_query (demo_env (ok_response (tool_calls_body [time_call, broken_call])))
                   ''weather'' [])) =
     [(JStr ''get_time'', JObj [])]"
  by (simp add: demo_simps run_simps)

lemma weather_run:
  "call_ollama (demo_env (ok_response (tool_calls_body [weather_call, time_call]))) ''weather''
     (available_tools demo_tools) (emit ListedTools []) =
     (Inr (JList [weather_call, time_call]),
      [ListedTools, Posted (build_request ''weather'' (available_tools demo_tools))])"
  by (simp add: demo_simps run_simps)

lemma weather_tools:
  "list_tools_resp (demo_env (ok_response (tool_calls_body [weather_call, time_call]))) [] =
     Inr demo_tools"
  by (simp add: demo_env_def)

lemma weather_invoked:
  "invoked (snd (process_query (demo_env (ok_response (tool_calls_body [weather_call, time_call])))
                   ''weather'' [])) =
     [(JStr ''get_weather'', JObj [(''city'', JStr ''Rome'')]), (JStr ''get_time'', JObj [])]"
  by (simp add: demo_simps run_simps)

theorem tool_calls_dispatched_witness:
  "list_tools_resp (demo_env (ok_response (tool_calls_body [weather_call, time_call]))) [] =
     Inr demo_tools \<and>
   call_ollama (demo_env (ok_response (tool_calls_body [weather_call, time_call]))) ''weather''
     (available_tools demo_tools) (emit ListedTools []) =
     (Inr (JList [weather_call, time_call]),
      [ListedTools, Posted (build_request ''weather'' (available_tools demo_tools))]) \<and>
   planned (demo_env (ok_response (tool_calls_body [weather_call, time_call]))) weather_call =
     Some (JStr ''get_weather'', JObj [(''city'', JStr ''Rome'')]) \<and>
   call_args_raw weather_call = Inr (JStr rome_text) \<and>
   json_loads (demo_env (ok_response (tool_calls_body [weather_call, time_call]))) rome_text =
     Inr (JObj [(''city'', JStr ''Rome'')]) \<and>
   planned (demo_env (ok_response (tool_calls_body [weather_call, time_call]))) time_call =
     Some (JStr ''get_time'', JObj []) \<and>
   invoked (snd (process_query (demo_env (ok_response (tool_calls_body [weather_call, time_call])))
                   ''weather'' [])) =
     [(JStr ''get_weather'', JObj [(''city'', JStr ''Rome'')]), (JStr ''get_time'', JObj [])] \<and>
   call_args_raw broken_call = Inr (JStr ''{city'') \<and>
   planned (demo_env (ok_response (tool_calls_body [time_call, broken_call]))) broken_call = None \<and>
   invoked (snd (process_query (demo_env (ok_response (tool_calls_body [time_call, broken_call])))
                   ''weather'' [])) =
     [(JStr ''get_time'', JObj [])] \<and>
   fst (process_query (demo_env (ok_response (tool_calls_body [time_call, broken_call])))
          ''weather'' []) = Inr ()"
  using tool_calls_dispatched [OF weather_tools weather_run] weather_tools weather_run
    weather_invoked partial_invoked
  by (simp add: demo_simps run_simps)

text \<open>
  The response lists \<open>get_weather\<close>, with an argument string that does not decode, and
  then \<open>get_time\<close>: no tool is invoked, \<open>get_time\<close> included.
\<close>

theorem each_listed_tool_invoked_counterexample:
  "fst (call_ollama (demo_env (ok_response (tool_calls_body [broken_call, time_call]))) ''weather''
          (available_tools demo_tools) (emit ListedTools [])) =
     Inr (JList [broken_call, time_call]) \<and>
   call_name broken_call = Inr (JStr ''get_weather'') \<and>
   call_name time_call = Inr (JStr ''get_time'') \<and>
   invoked (snd (process_query (demo_env (ok_response (tool_calls_body [broken_call, time_call])))
                   ''weather'' [])) = [] \<and>
   map fst (invoked (snd (process_query
                            (demo_env (ok_response (tool_calls_body [broken_call, time_call])))
                            ''weather'' []))) \<noteq>
     [JStr ''get_weather'', JStr ''get_time''] \<and>
   fst (process_query (demo_env (ok_response (tool_calls_body [broken_call, time_call])))
          ''weather'' []) = Inr ()"
  by (simp add: demo_simps run_simps)

section \<open>One query\<close>

lemma try_query_posted:
  "posted (snd (try_query env query tools h)) = posted h @ [build_request query tools]"
proof -
  obtain r h1 where c: "call_ollama env query tools h = (r, h1)" by (cases "call_ollama env query tools h")
  then have h1: "h1 = emit (Posted (build_request query tools)) h"
    using call_ollama_snd [of env query tools h] by simp
  then have p1: "posted h1 = posted h @ [build_request query tools]"
    by (simp add: posted_emit)
  show ?thesis
  proof (cases r)
    case (Inl e)
    then show ?thesis using c p1 by (simp add: try_query_def)
  next
    case (Inr content)
    then show ?thesis using c p1
      by (cases content) (simp_all add: try_query_def for_calls_posted posted_emit)
  qed
qed

lemma try_query_cleanups: "cleanups (snd (try_query env query tools h)) = cleanups h"
proof -
  obtain r h1 where c: "call_ollama env query tools h = (r, h1)" by (cases "call_ollama env query tools h")
  then have h1: "h1 = emit (Posted (build_request query tools)) h"
    using call_ollama_snd [of env query tools h] by simp
  then have p1: "cleanups h1 = cleanups h"
    by (simp add: cleanups_emit)
  show ?thesis
  proof (cases r)
    case (Inl e)
    then show ?thesis using c p1 by (simp add: try_query_def)
  next
    case (Inr content)
    then show ?thesis using c p1
      by (cases content) (simp_all add: try_query_def for_calls_cleanups cleanups_emit)
  qed
qed

lemma process_query_posted:
  "posted (snd (process_query env query h)) =
     posted h @ (case list_tools_resp env h of
                   Inl e \<Rightarrow> []
                 | Inr tools \<Rightarrow> [build_request query (available_tools tools)])"
proof (cases "list_tools_resp env h")
  case (Inl e)
  then show ?thesis by (simp add: process_query_def Let_def posted_emit)
next
  case (Inr tools)
  obtain r h2 where t: "try_query env query (available_tools tools) (emit ListedTools h) = (r, h2)"
    by (cases "try_query env query (available_tools tools) (emit ListedTools h)")
  then have "posted h2 = posted h @ [build_request query (available_tools tools)]"
    using try_query_posted [of env query "available_tools tools" "emit ListedTools h"]
    by (simp add: posted_emit)
  then show ?thesis using Inr t
    by (cases r) (simp_all add: process_query_def Let_def posted_emit)
qed

lemma process_query_cleanups: "cleanups (snd (process_query env query h)) = cleanups h"
proof (cases "list_tools_resp env h")
  case (Inl e)
  then show ?thesis by (simp add: process_query_def Let_def cleanups_emit)
next
  case (Inr tools)
  obtain r h2 where t: "try_query env query (available_tools tools) (emit ListedTools h) = (r, h2)"
    by (cases "try_query env query (available_tools tools) (emit ListedTools h)")
  then have "cleanups h2 = cleanups h"
    using try_query_cleanups [of env query "available_tools tools" "emit ListedTools h"]
    by (simp add: cleanups_emit)
  then show ?thesis using Inr t
    by (cases r) (simp_all add: process_query_def Let_def cleanups_emit)
qed

section \<open>The interactive loop\<close>

lemma loop_body_eof:
  assumes "stdin w = []"
  shows "loop_body env w =
           (Continue,
            w\<lparr>trace := trace w @ [Printed Prompt, Printed (LoopError ''EOF when reading a line'')]\<rparr>)"
  using assms by (simp add: loop_body_def py_input_def loop_except_def Let_def emit_def)

lemma loop_body_quit:
  assumes "stdin w = l # ls" and "lower (strip l) = ''quit''"
  shows "loop_body env w = (Break, w\<lparr>stdin := ls, trace := trace w @ [Printed Prompt]\<rparr>)"
  using assms by (simp add: loop_body_def py_input_def Let_def emit_def)

lemma loop_body_query:
  assumes "stdin w = l # ls" and "lower (strip l) \<noteq> ''quit''"
  shows "loop_body env w =
           (case process_query env (strip l) (trace w @ [Printed Prompt]) of
              (Inl e, h2) \<Rightarrow>
                (if is_Exception e
                 then (Continue, w\<lparr>stdin := ls, trace := h2 @ [Printed (LoopError (str_exn e))]\<rparr>)
                 else (Propagate e, w\<lparr>stdin := ls, trace := h2\<rparr>))
            | (Inr u, h2) \<Rightarrow> (Continue, w\<lparr>stdin := ls, trace := h2\<rparr>))"
  using assms
  by (simp add: loop_body_def py_input_def loop_except_def Let_def emit_def
           split: prod.splits sum.splits)

lemma loop_body_stdin: "stdin (snd (loop_body env w)) = tl (stdin w)"
proof (cases "stdin w")
  case Nil
  then show ?thesis by (simp add: loop_body_eof)
next
  case (Cons l ls)
  show ?thesis
  proof (cases "lower (strip l) = ''quit''")
    case True
    then show ?thesis using Cons by (simp add: loop_body_quit)
  next
    case False
    then show ?thesis using Cons
      by (simp add: loop_body_query split: prod.splits sum.splits)
  qed
qed

lemma loop_body_Break:
  assumes "fst (loop_body env w) = Break"
  shows "\<exists>l ls. stdin w = l # ls \<and> lower (strip l) = ''quit''"
proof (cases "stdin w")
  case Nil
  then show ?thesis using assms by (simp add: loop_body_eof)
next
  case (Cons l ls)
  then show ?thesis using assms
    by (cases "lower (strip l) = ''quit''")
       (auto simp: loop_body_query split: prod.splits sum.splits if_splits)
qed

lemma loop_body_Propagate:
  assumes "fst (loop_body env w) = Propagate e"
  shows "\<not> is_Exception e"
proof (cases "stdin w")
  case Nil
  then show ?thesis using assms by (simp add: loop_body_eof)
next
  case (Cons l ls)
  then show ?thesis using assms
    by (cases "lower (strip l) = ''quit''")
       (auto simp: loop_body_query loop_body_quit split: prod.splits sum.splits if_splits)
qed

lemma while_True_exit:
  assumes "while_True env n w = Some (x, w')"
  shows "(x = Quit \<and> (\<exists>l \<in> set (stdin w). lower (strip l) = ''quit'')) \<or>
         (\<exists>e. x = Uncaught e \<and> \<not> is_Exception e)"
  using assms
proof (induction n arbitrary: w)
  case 0
  then show ?case by simp
next
  case (Suc n)
  obtain s w1 where b: "loop_body env w = (s, w1)" by (cases "loop_body env w")
  show ?case
  proof (cases s)
    case Continue
    then have "while_True env n w1 = Some (x, w')" using Suc.prems b by simp
    from Suc.IH [OF this] have
      "(x = Quit \<and> (\<exists>l \<in> set (stdin w1). lower (strip l) = ''quit'')) \<or>
       (\<exists>e. x = Uncaught e \<and> \<not> is_Exception e)" .
    moreover have "stdin w1 = tl (stdin w)" using loop_body_stdin [of env w] b by simp
    ultimately show ?thesis by (cases "stdin w") auto
  next
    case Break
    then have "x = Quit" using Suc.prems b by simp
    moreover have "\<exists>l ls. stdin w = l # ls \<and> lower (strip l) = ''quit''"
      using loop_body_Break [of env w] b Break by simp
    ultimately show ?thesis by auto
  next
    case (Propagate e)
    then have "x = Uncaught e" using Suc.prems b by simp
    moreover have "\<not> is_Exception e" using loop_body_Propagate [of env w e] b Propagate by simp
    ultimately show ?thesis by simp
  qed
qed

lemma loop_body_posted:
  "posted (trace (snd (loop_body env w))) =
     posted (trace w) @
     (case stdin w of
        [] \<Rightarrow> []
      | l # ls \<Rightarrow>
          if lower (strip l) = ''quit'' then []
          else (case list_tools_resp env (trace w @ [Printed Prompt]) of
                  Inl e \<Rightarrow> []
                | Inr tools \<Rightarrow> [build_request (strip l) (available_tools tools)]))"
proof (cases "stdin w")
  case Nil
  then show ?thesis by (simp add: loop_body_eof posted_append)
next
  case (Cons l ls)
  show ?thesis
  proof (cases "lower (strip l) = ''quit''")
    case True
    then show ?thesis using Cons by (simp add: loop_body_quit posted_append)
  next
    case False
    let ?h = "trace w @ [Printed Prompt]"
    obtain r h2 where pq: "process_query env (strip l) ?h = (r, h2)"
      by (cases "process_query env (strip l) ?h")
    have "posted h2 = posted (trace w) @
            (case list_tools_resp env ?h of
               Inl e \<Rightarrow> []
             | Inr tools \<Rightarrow> [build_request (strip l) (available_tools tools)])"
      using process_query_posted [of env "strip l" ?h] pq by (simp add: posted_append)
    then show ?thesis using Cons False pq
      by (cases r) (simp_all add: loop_body_query posted_append)
  qed
qed

lemma loop_body_cleanups: "cleanups (trace (snd (loop_body env w))) = cleanups (trace w)"
proof (cases "stdin w")
  case Nil
  then show ?thesis by (simp add: loop_body_eof cleanups_append)
next
  case (Cons l ls)
  show ?thesis
  proof (cases "lower (strip l) = ''quit''")
    case True
    then show ?thesis using Cons by (simp add: loop_body_quit cleanups_append)
  next
    case False
    let ?h = "trace w @ [Printed Prompt]"
    obtain r h2 where pq: "process_query env (strip l) ?h = (r, h2)"
      by (cases "process_query env (strip l) ?h")
    have "cleanups h2 = cleanups (trace w)"
      using process_query_cleanups [of env "strip l" ?h] pq by (simp add: cleanups_append)
    then show ?thesis using Cons False pq
      by (cases r) (simp_all add: loop_body_query cleanups_append)
  qed
qed

lemma while_True_cleanups:
  assumes "while_True env n w = Some (x, w')"
  shows "cleanups (trace w') = cleanups (trace w)"
  using assms
proof (induction n arbitrary: w)
  case 0
  then show ?case by simp
next
  case (Suc n)
  obtain s w1 where b: "loop_body env w = (s, w1)" by (cases "loop_body env w")
  then have c: "cleanups (trace w1) = cleanups (trace w)"
    using loop_body_cleanups [of env w] by simp
  show ?case
  proof (cases s)
    case Continue
    then have "while_True env n w1 = Some (x, w')" using Suc.prems b by simp
    from Suc.IH [OF this] c show ?thesis by simp
  next
    case Break
    then show ?thesis using Suc.prems b c by auto
  next
    case (Propagate e)
    then show ?thesis using Suc.prems b c by auto
  qed
qed

lemma connect_cleanups: "cleanups (snd (connect_to_server env p h)) = cleanups h"
  by (simp add: connect_to_server_def Let_def cleanups_emit split: option.splits sum.splits)

lemma main_cleanups:
  assumes "2 \<le> length argv" and "main env fuel argv w = Some (x, w')"
  shows "cleanups (trace w') = Suc (cleanups (trace w)) \<and> last (trace w') = CleanedUp"
proof -
  obtain r h1 where c: "connect_to_server env (argv ! 1) (trace w) = (r, h1)"
    by (cases "connect_to_server env (argv ! 1) (trace w)")
  then have h1: "cleanups h1 = cleanups (trace w)"
    using connect_cleanups [of env "argv ! 1" "trace w"] by simp
  show ?thesis
  proof (cases r)
    case (Inl e)
    then show ?thesis using assms c h1
      by (auto simp: main_def cleanup_def emit_def cleanups_append)
  next
    case (Inr u)
    let ?w1 = "w\<lparr>trace := emit (Printed Hint) (emit (Printed Started) h1)\<rparr>"
    from assms Inr c obtain y w2 where
      run: "while_True env fuel ?w1 = Some (y, w2)"
      and fin: "w' = w2\<lparr>trace := cleanup (trace w2)\<rparr>"
      by (auto simp: main_def chat_loop_def split: option.splits loop_exit.splits)
    have "cleanups (trace w2) = cleanups (trace ?w1)"
      using while_True_cleanups [OF run] .
    then show ?thesis using fin h1
      by (simp add: cleanup_def emit_def cleanups_append)
  qed
qed

section \<open>The session\<close>

lemma quit_line: "lower (strip ''quit'') = ''quit''"
  by code_simp

lemma QUIT_line: "lower (strip ''QUIT   '') = ''quit''"
  by code_simp

lemma hi_line: "lower (strip ''hi'') \<noteq> ''quit''"
  by code_simp

lemma padded_line: "strip ''  weather in Rome '' = ''weather in Rome''"
  by code_simp

lemma padded_not_quit: "lower (strip ''  weather in Rome '') \<noteq> ''quit''"
  by code_simp

text \<open>
  C5. When the line read is the quit sentinel after stripping and lowering, the loop ends
  at once: the prompt is the only event of that pass, so no tool listing, model request
  or tool invocation follows. In \<open>main\<close> the cleanup is then the next and last event;
  and every run of \<open>main\<close> that got past the argument check and ended has made exactly
  one cleanup, as its last event.
\<close>

theorem quit_ends_session:
  assumes "stdin w = l # ls" and "lower (strip l) = ''quit''"
  shows "while_True env (Suc n) w =
           Some (Quit, w\<lparr>stdin := ls, trace := trace w @ [Printed Prompt]\<rparr>) \<and>
         (2 \<le> length argv \<and> connect_to_server env (argv ! 1) (trace w) = (Inr (), h1)
            \<longrightarrow> main env (Suc n) argv w =
                  Some (Returned,
                        w\<lparr>stdin := ls,
                          trace := h1 @ [Printed Started, Printed Hint, Printed Prompt,
                                         CleanedUp]\<rparr>)) \<and>
         (\<forall>fuel x w'. 2 \<le> length argv \<and> main env fuel argv w = Some (x, w')
            \<longrightarrow> cleanups (trace w') = Suc (cleanups (trace w)) \<and> last (trace w') = CleanedUp)"
proof -
  have 1: "while_True env (Suc n) w =
             Some (Quit, w\<lparr>stdin := ls, trace := trace w @ [Printed Prompt]\<rparr>)"
    using assms by (simp add: loop_body_quit)
  have 2: "2 \<le> length argv \<and> connect_to_server env (argv ! 1) (trace w) = (Inr (), h1)
            \<longrightarrow> main env (Suc n) argv w =
                  Some (Returned,
                        w\<lparr>stdin := ls,
                          trace := h1 @ [Printed Started, Printed Hint, Printed Prompt,
                                         CleanedUp]\<rparr>)"
    using assms by (simp add: main_def chat_loop_def loop_body_quit cleanup_def emit_def)
  show ?thesis using 1 2 main_cleanups by blast
qed

lemma demo_connect:
  "connect_to_server (demo_env r) ''tool_server.py'' [] =
     (Inr (),
      [Spawned ''python'' [''tool_server.py''], Initialized, ListedTools,
       Printed (Connected [''get_weather'', ''get_time''])])"
  by (simp add: connect_to_server_def endswith_def demo_env_def demo_tools_def emit_def)

theorem quit_ends_session_witness:
  "stdin (console_world [''QUIT   '']) = [''QUIT   ''] \<and>
   lower (strip ''QUIT   '') = ''quit'' \<and>
   connect_to_server (demo_env (ok_response hello_body)) ([''client.py'', ''tool_server.py''] ! 1)
     (trace (console_world [''QUIT   ''])) =
     (Inr (),
      [Spawned ''python'' [''tool_server.py''], Initialized, ListedTools,
       Printed (Connected [''get_weather'', ''get_time''])]) \<and>
   main (demo_env (ok_response hello_body)) (Suc 0) [''client.py'', ''tool_server.py'']
     (console_world [''QUIT   '']) =
     Some (Returned,
           \<lparr>stdin = [],
            trace = [Spawned ''python'' [''tool_server.py''], Initialized, ListedTools,
                     Printed (Connected [''get_weather'', ''get_time'']),
                     Printed Started, Printed Hint, Printed Prompt, CleanedUp]\<rparr>)"
  using quit_ends_session [where w = "console_world [''QUIT   '']" and l = "''QUIT   ''"
          and ls = "[]" and argv = "[''client.py'', ''tool_server.py'']"
          and env = "demo_env (ok_response hello_body)" and n = 0
          and ?h1.0 = "[Spawned ''python'' [''tool_server.py''], Initialized, ListedTools,
                        Printed (Connected [''get_weather'', ''get_time''])]"]
        QUIT_line demo_connect [of "ok_response hello_body"]
  by (simp add: console_world_def)

text \<open>
  C4. An exception of class \<open>Exception\<close> raised while a query is processed does not end
  the session. A failure of the model call is a failure of the \<open>try\<close> block; a failure of
  the \<open>try\<close> block (model call, argument decoding, tool invocation, reading the result)
  is caught in \<open>process_query\<close>, which prints its text and returns; one that
  \<open>process_query\<close> lets through (the tool listing before the \<open>try\<close>) is caught in the
  loop, which prints its text; in both cases the loop goes on with the next line. The
  loop ends only when a line read is the quit sentinel, or by an exception that is no
  \<open>Exception\<close> (an interruption).
\<close>

theorem processing_errors_are_contained:
  "(fst (call_ollama env query tools h1) = Inl e
      \<longrightarrow> fst (try_query env query tools h1) = Inl e) \<and>
   (list_tools_resp env h = Inr ts \<and>
    try_query env query (available_tools ts) (emit ListedTools h) = (Inl e, h2) \<and>
    is_Exception e
      \<longrightarrow> process_query env query h = (Inr (), h2 @ [Printed (QueryError (str_exn e))])) \<and>
   (stdin w = l # ls \<and> lower (strip l) \<noteq> ''quit'' \<and>
    process_query env (strip l) (trace w @ [Printed Prompt]) = (Inl e, h3) \<and> is_Exception e
      \<longrightarrow> while_True env (Suc n) w =
            while_True env n (w\<lparr>stdin := ls, trace := h3 @ [Printed (LoopError (str_exn e))]\<rparr>)) \<and>
   (stdin w = l # ls \<and> lower (strip l) \<noteq> ''quit'' \<and>
    process_query env (strip l) (trace w @ [Printed Prompt]) = (Inr (), h3)
      \<longrightarrow> while_True env (Suc n) w = while_True env n (w\<lparr>stdin := ls, trace := h3\<rparr>)) \<and>
   (while_True env n w = Some (x, w')
      \<longrightarrow> (x = Quit \<and> (\<exists>l \<in> set (stdin w). lower (strip l) = ''quit'')) \<or>
          (\<exists>e. x = Uncaught e \<and> \<not> is_Exception e))"
proof -
  have 1: "fst (call_ollama env query tools h1) = Inl e
             \<longrightarrow> fst (try_query env query tools h1) = Inl e"
    by (cases "call_ollama env query tools h1") (simp add: try_query_def)
  have 2: "list_tools_resp env h = Inr ts \<and>
           try_query env query (available_tools ts) (emit ListedTools h) = (Inl e, h2) \<and>
           is_Exception e
             \<longrightarrow> process_query env query h = (Inr (), h2 @ [Printed (QueryError (str_exn e))])"
    by (simp add: process_query_def Let_def emit_def)
  have 3: "stdin w = l # ls \<and> lower (strip l) \<noteq> ''quit'' \<and>
           process_query env (strip l) (trace w @ [Printed Prompt]) = (Inl e, h3) \<and>
           is_Exception e
             \<longrightarrow> while_True env (Suc n) w =
                   while_True env n
                     (w\<lparr>stdin := ls, trace := h3 @ [Printed (LoopError (str_exn e))]\<rparr>)"
    by (simp add: loop_body_query)
  have 4: "stdin w = l # ls \<and> lower (strip l) \<noteq> ''quit'' \<and>
           process_query env (strip l) (trace w @ [Printed Prompt]) = (Inr (), h3)
             \<longrightarrow> while_True env (Suc n) w = while_True env n (w\<lparr>stdin := ls, trace := h3\<rparr>)"
    by (simp add: loop_body_query)
  have 5: "while_True env n w = Some (x, w')
             \<longrightarrow> (x = Quit \<and> (\<exists>l \<in> set (stdin w). lower (strip l) = ''quit'')) \<or>
                 (\<exists>e. x = Uncaught e \<and> \<not> is_Exception e)"
    using while_True_exit [of env n w x w'] by blast
  show ?thesis using 1 2 3 4 5 by blast
qed

lemma hi_strip: "strip ''hi'' = ''hi''"
  by code_simp

lemma failed_query:
  "process_query (demo_env error_500) ''hi'' [Printed Prompt] =
     (Inr (),
      [Printed Prompt, ListedTools, Posted (build_request ''hi'' (available_tools demo_tools)),
       Printed (QueryError ''Errore Ollama: 500 - internal error'')])"
  by (simp add: demo_simps run_simps str_int_500)

lemma failed_listing:
  "process_query (closed_env error_500) ''hi'' [Printed Prompt] =
     (Inl (Exn OtherException ''Connection closed''), [Printed Prompt, ListedTools])"
  by (simp add: closed_env_def demo_simps run_simps)

lemma failed_query_session:
  "while_True (demo_env error_500) (Suc (Suc 0)) (console_world [''hi'', ''quit'']) =
     Some (Quit,
           \<lparr>stdin = [],
            trace = [Printed Prompt, ListedTools,
                     Posted (build_request ''hi'' (available_tools demo_tools)),
                     Printed (QueryError ''Errore Ollama: 500 - internal error''),
                     Printed Prompt]\<rparr>)"
proof -
  have 1: "loop_body (demo_env error_500) (console_world [''hi'', ''quit'']) =
             (Continue,
              \<lparr>stdin = [''quit''],
               trace = [Printed Prompt, ListedTools,
                        Posted (build_request ''hi'' (available_tools demo_tools)),
                        Printed (QueryError ''Errore Ollama: 500 - internal error'')]\<rparr>)"
    using loop_body_query [of "console_world [''hi'', ''quit'']" "''hi''" "[''quit'']"
            "demo_env error_500"] hi_line
    by (simp add: console_world_def hi_strip failed_query)
  have 2: "loop_body (demo_env error_500)
             \<lparr>stdin = [''quit''],
              trace = [Printed Prompt, ListedTools,
                       Posted (build_request ''hi'' (available_tools demo_tools)),
                       Printed (QueryError ''Errore Ollama: 500 - internal error'')]\<rparr> =
             (Break,
              \<lparr>stdin = [],
               trace = [Printed Prompt, ListedTools,
                        Posted (build_request ''hi'' (available_tools demo_tools)),
                        Printed (QueryError ''Errore Ollama: 500 - internal error''),
                        Printed Prompt]\<rparr>)"
    using loop_body_quit [of _ "''quit''" "[]" "demo_env error_500"] quit_line
    by simp
  show ?thesis by (simp add: 1 2)
qed

lemma failed_listing_session:
  "while_True (closed_env error_500) (Suc (Suc 0)) (console_world [''hi'', ''quit'']) =
     Some (Quit,
           \<lparr>stdin = [],
            trace = [Printed Prompt, ListedTools, Printed (LoopError ''Connection closed''),
                     Printed Prompt]\<rparr>)"
proof -
  have 1: "loop_body (closed_env error_500) (console_world [''hi'', ''quit'']) =
             (Continue,
              \<lparr>stdin = [''quit''],
               trace = [Printed Prompt, ListedTools,
                        Printed (LoopError ''Connection closed'')]\<rparr>)"
    using loop_body_query [of "console_world [''hi'', ''quit'']" "''hi''" "[''quit'']"
            "closed_env error_500"] hi_line
    by (simp add: console_world_def hi_strip failed_listing)
  have 2: "loop_body (closed_env error_500)
             \<lparr>stdin = [''quit''],
              trace = [Printed Prompt, ListedTools,
                       Printed (LoopError ''Connection closed'')]\<rparr> =
             (Break,
              \<lparr>stdin = [],
               trace = [Printed Prompt, ListedTools, Printed (LoopError ''Connection closed''),
                        Printed Prompt]\<rparr>)"
    using loop_body_quit [of _ "''quit''" "[]" "closed_env error_500"] quit_line
    by simp
  show ?thesis by (simp add: 1 2)
qed

theorem processing_errors_are_contained_witness:
  "fst (call_ollama (demo_env error_500) ''hi'' (available_tools demo_tools)
          (emit ListedTools [Printed Prompt])) =
     Inl (Exn PlainException ''Errore Ollama: 500 - internal error'') \<and>
   is_Exception (Exn PlainException ''Errore Ollama: 500 - internal error'') \<and>
   list_tools_resp (demo_env error_500) [Printed Prompt] = Inr demo_tools \<and>
   try_query (demo_env error_500) ''hi'' (available_tools demo_tools)
     (emit ListedTools [Printed Prompt]) =
     (Inl (Exn PlainException ''Errore Ollama: 500 - internal error''),
      [Printed Prompt, ListedTools, Posted (build_request ''hi'' (available_tools demo_tools))]) \<and>
   process_query (demo_env error_500) ''hi'' [Printed Prompt] =
     (Inr (),
      [Printed Prompt, ListedTools, Posted (build_request ''hi'' (available_tools demo_tools)),
       Printed (QueryError ''Errore Ollama: 500 - internal error'')]) \<and>
   lower (strip ''hi'') \<noteq> ''quit'' \<and>
   process_query (closed_env error_500) (strip ''hi'') [Printed Prompt] =
     (Inl (Exn OtherException ''Connection closed''), [Printed Prompt, ListedTools]) \<and>
   while_True (closed_env error_500) (Suc (Suc 0)) (console_world [''hi'', ''quit'']) =
     Some (Quit,
           \<lparr>stdin = [],
            trace = [Printed Prompt, ListedTools, Printed (LoopError ''Connection closed''),
                     Printed Prompt]\<rparr>) \<and>
   while_True (demo_env error_500) (Suc (Suc 0)) (console_world [''hi'', ''quit'']) =
     Some (Quit,
           \<lparr>stdin = [],
            trace = [Printed Prompt, ListedTools,
                     Posted (build_request ''hi'' (available_tools demo_tools)),
                     Printed (QueryError ''Errore Ollama: 500 - internal error''),
                     Printed Prompt]\<rparr>)"
  using processing_errors_are_contained
          [where env = "demo_env error_500" and query = "''hi''"
             and tools = "available_tools demo_tools" and ?h1.0 = "emit ListedTools [Printed Prompt]"
             and e = "Exn PlainException ''Errore Ollama: 500 - internal error''"
             and h = "[Printed Prompt]" and ts = demo_tools
             and w = "console_world [''hi'', ''quit'']" and l = "''hi''" and ls = "[''quit'']"
             and n = "Suc 0" and x = Quit]
        processing_errors_are_contained
          [where env = "closed_env error_500" and w = "console_world [''hi'', ''quit'']"
             and l = "''hi''" and ls = "[''quit'']" and n = "Suc 0"
             and e = "Exn OtherException ''Connection closed''"
             and ?h3.0 = "[Printed Prompt, ListedTools]"]
        failed_query failed_listing failed_query_session failed_listing_session hi_line hi_strip
  by (simp add: demo_simps try_query_def call_ollama_def on_response_def Let_def emit_def
                str_int_500)

section \<open>What is sent to the model\<close>

lemma loop_body_posted_new:
  "\<exists>rs. posted (trace (snd (loop_body env w))) = posted (trace w) @ rs \<and> length rs \<le> 1 \<and>
        (\<forall>r \<in> set rs. \<exists>l ls. stdin w = l # ls \<and>
           req_messages r =
             [\<lparr>msg_role = ''system'', msg_content = system_prompt\<rparr>,
              \<lparr>msg_role = ''user'', msg_content = strip l\<rparr>])"
proof (cases "stdin w")
  case Nil
  then show ?thesis using loop_body_posted [of env w] by simp
next
  case (Cons l ls)
  show ?thesis
  proof (cases "lower (strip l) = ''quit''")
    case True
    then show ?thesis using loop_body_posted [of env w] Cons by simp
  next
    case False
    show ?thesis
    proof (cases "list_tools_resp env (trace w @ [Printed Prompt])")
      case (Inl e)
      then show ?thesis using loop_body_posted [of env w] Cons False by simp
    next
      case (Inr tools)
      then have "posted (trace (snd (loop_body env w))) =
                   posted (trace w) @ [build_request (strip l) (available_tools tools)]"
        using loop_body_posted [of env w] Cons False by simp
      then show ?thesis using Cons
        by (intro exI [of _ "[build_request (strip l) (available_tools tools)]"])
           (simp add: build_request_def build_messages_def)
    qed
  qed
qed

lemma while_True_posted:
  assumes "while_True env n w = Some (x, w')"
  shows "\<forall>r \<in> set (posted (trace w')).
           r \<in> set (posted (trace w)) \<or>
           (\<exists>l \<in> set (stdin w).
              req_messages r =
                [\<lparr>msg_role = ''system'', msg_content = system_prompt\<rparr>,
                 \<lparr>msg_role = ''user'', msg_content = strip l\<rparr>])"
  using assms
proof (induction n arbitrary: w)
  case 0
  then show ?case by simp
next
  case (Suc n)
  let ?new = "\<lambda>r l. req_messages r =
                [\<lparr>msg_role = ''system'', msg_content = system_prompt\<rparr>,
                 \<lparr>msg_role = ''user'', msg_content = strip l\<rparr>]"
  obtain s w1 where b: "loop_body env w = (s, w1)" by (cases "loop_body env w")
  from loop_body_posted_new [of env w] b obtain rs where
    rs: "posted (trace w1) = posted (trace w) @ rs"
        "\<forall>r \<in> set rs. \<exists>l ls. stdin w = l # ls \<and> ?new r l"
    by auto
  have step: "\<forall>r \<in> set (posted (trace w1)).
                r \<in> set (posted (trace w)) \<or> (\<exists>l \<in> set (stdin w). ?new r l)"
  proof
    fix r assume "r \<in> set (posted (trace w1))"
    then consider "r \<in> set (posted (trace w))" | "r \<in> set rs" using rs(1) by auto
    then show "r \<in> set (posted (trace w)) \<or> (\<exists>l \<in> set (stdin w). ?new r l)"
    proof cases
      case 1
      then show ?thesis by simp
    next
      case 2
      then obtain l ls where "stdin w = l # ls" "?new r l" using rs(2) by blast
      then show ?thesis by auto
    qed
  qed
  have tl: "stdin w1 = tl (stdin w)" using loop_body_stdin [of env w] b by simp
  show ?case
  proof (cases s)
    case Continue
    then have "while_True env n w1 = Some (x, w')" using Suc.prems b by simp
    from Suc.IH [OF this] have ih:
      "\<forall>r \<in> set (posted (trace w')).
         r \<in> set (posted (trace w1)) \<or> (\<exists>l \<in> set (stdin w1). ?new r l)" .
    show ?thesis
    proof
      fix r assume "r \<in> set (posted (trace w'))"
      with ih consider "r \<in> set (posted (trace w1))" | "\<exists>l \<in> set (stdin w1). ?new r l"
        by blast
      then show "r \<in> set (posted (trace w)) \<or> (\<exists>l \<in> set (stdin w). ?new r l)"
      proof cases
        case 1
        then show ?thesis using step by blast
      next
        case 2
        then show ?thesis using tl by (cases "stdin w") auto
      qed
    qed
  next
    case Break
    then have "w' = w1" using Suc.prems b by simp
    then show ?thesis using step by simp
  next
    case (Propagate e)
    then have "w' = w1" using Suc.prems b by simp
    then show ?thesis using step by simp
  qed
qed

text \<open>
  C8. The request built for a query holds two messages, the fixed system prompt and then
  the query, and it is this request that \<open>call_ollama\<close> sends, whatever happened before.
  A pass through the loop, from any state, sends at most one request, whose messages are
  the system prompt and the stripped line just read; so every request of a session that
  ended holds those two messages for one of the lines read, and nothing of another turn.
\<close>

theorem request_has_two_messages:
  "req_messages (build_request query tools) =
     [\<lparr>msg_role = ''system'', msg_content = system_prompt\<rparr>,
      \<lparr>msg_role = ''user'', msg_content = query\<rparr>] \<and>
   snd (call_ollama env query tools h) = h @ [Posted (build_request query tools)] \<and>
   (\<exists>rs. posted (trace (snd (loop_body env w))) = posted (trace w) @ rs \<and> length rs \<le> 1 \<and>
         (\<forall>r \<in> set rs. \<exists>l ls. stdin w = l # ls \<and>
            req_messages r =
              [\<lparr>msg_role = ''system'', msg_content = system_prompt\<rparr>,
               \<lparr>msg_role = ''user'', msg_content = strip l\<rparr>])) \<and>
   (while_True env n w = Some (x, w')
      \<longrightarrow> (\<forall>r \<in> set (posted (trace w')).
             r \<in> set (posted (trace w)) \<or>
             (\<exists>l \<in> set (stdin w).
                req_messages r =
                  [\<lparr>msg_role = ''system'', msg_content = system_prompt\<rparr>,
                   \<lparr>msg_role = ''user'', msg_content = strip l\<rparr>])))"
proof -
  have 1: "req_messages (build_request query tools) =
     [\<lparr>msg_role = ''system'', msg_content = system_prompt\<rparr>,
      \<lparr>msg_role = ''user'', msg_content = query\<rparr>]"
    by (simp add: build_request_def build_messages_def)
  have 2: "snd (call_ollama env query tools h) = h @ [Posted (build_request query tools)]"
    by (simp add: call_ollama_snd emit_def)
  show ?thesis using 1 2 loop_body_posted_new [of env w] while_True_posted [of env n w x w']
    by blast
qed

lemma of_char_lower_char:
  "(of_char (lower_char c) :: nat) = (if is_upper c then of_char c + 32 else of_char c)"
  by (auto simp: lower_char_def is_upper_def Let_def)

lemma lower_char_letter:
  assumes "(of_char t :: nat) = k" and "97 \<le> k" and "k \<le> 122"
  shows "(lower_char c = t) = (c = t \<or> (of_char c :: nat) = k - 32)"
proof -
  have "(lower_char c = t) = ((of_char (lower_char c) :: nat) = of_char t)"
    by (simp add: of_char_eq_iff)
  also have "\<dots> = ((of_char c :: nat) = k \<or> (of_char c :: nat) = k - 32)"
    using assms by (auto simp: of_char_lower_char is_upper_def)
  also have "\<dots> = (c = t \<or> (of_char c :: nat) = k - 32)"
    using assms(1) by (metis of_char_eq_iff)
  finally show ?thesis .
qed

lemma lower_char_q: "(lower_char c = CHR ''q'') = (c = CHR ''q'' \<or> c = CHR ''Q'')"
proof -
  have "((of_char c :: nat) = 81) = (c = CHR ''Q'')"
    using of_char_eq_iff [of c "CHR ''Q''", where ?'a = nat] by simp
  then show ?thesis using lower_char_letter [of "CHR ''q''" 113 c] by simp
qed

lemma lower_char_u: "(lower_char c = CHR ''u'') = (c = CHR ''u'' \<or> c = CHR ''U'')"
proof -
  have "((of_char c :: nat) = 85) = (c = CHR ''U'')"
    using of_char_eq_iff [of c "CHR ''U''", where ?'a = nat] by simp
  then show ?thesis using lower_char_letter [of "CHR ''u''" 117 c] by simp
qed

lemma lower_char_i: "(lower_char c = CHR ''i'') = (c = CHR ''i'' \<or> c = CHR ''I'')"
proof -
  have "((of_char c :: nat) = 73) = (c = CHR ''I'')"
    using of_char_eq_iff [of c "CHR ''I''", where ?'a = nat] by simp
  then show ?thesis using lower_char_letter [of "CHR ''i''" 105 c] by simp
qed

lemma lower_char_t: "(lower_char c = CHR ''t'') = (c = CHR ''t'' \<or> c = CHR ''T'')"
proof -
  have "((of_char c :: nat) = 84) = (c = CHR ''T'')"
    using of_char_eq_iff [of c "CHR ''T''", where ?'a = nat] by simp
  then show ?thesis using lower_char_letter [of "CHR ''t''" 116 c] by simp
qed

lemma lower_quit:
  "(lower s = ''quit'') =
     (\<exists>a b c d. s = [a, b, c, d] \<and>
        (a = CHR ''q'' \<or> a = CHR ''Q'') \<and> (b = CHR ''u'' \<or> b = CHR ''U'') \<and>
        (c = CHR ''i'' \<or> c = CHR ''I'') \<and> (d = CHR ''t'' \<or> d = CHR ''T''))"
proof -
  have "(lower s = ''quit'') =
          (\<exists>a b c d. s = [a, b, c, d] \<and> lower_char a = CHR ''q'' \<and> lower_char b = CHR ''u'' \<and>
             lower_char c = CHR ''i'' \<and> lower_char d = CHR ''t'')"
    by (auto simp: lower_def map_eq_Cons_conv)
  then show ?thesis by (simp only: lower_char_q lower_char_u lower_char_i lower_char_t)
qed

lemma mixed_quit_strip: "strip ''  QuIt '' = ''QuIt''"
  by code_simp

lemma mixed_quit_line: "lower (strip ''  QuIt '') = ''quit''"
  by code_simp

text \<open>
  C10. The line read is stripped first. The loop breaks exactly when the stripped line,
  lowered, is \<open>quit\<close>, that is when the stripped line is \<open>quit\<close> in any mix of upper and
  lower case; otherwise the stripped line is the query given to \<open>process_query\<close>, and
  the user message of the request sent in that pass. The stripped line is the line without
  a leading and a trailing run of whitespace, and neither begins nor ends with whitespace.
\<close>

theorem query_is_stripped_line:
  assumes "stdin w = l # ls"
  shows "(fst (loop_body env w) = Break) = (lower (strip l) = ''quit'') \<and>
         (fst (loop_body env w) = Break) =
           (\<exists>a b c d. strip l = [a, b, c, d] \<and>
              (a = CHR ''q'' \<or> a = CHR ''Q'') \<and> (b = CHR ''u'' \<or> b = CHR ''U'') \<and>
              (c = CHR ''i'' \<or> c = CHR ''I'') \<and> (d = CHR ''t'' \<or> d = CHR ''T'')) \<and>
         (lower (strip l) \<noteq> ''quit''
            \<longrightarrow> loop_body env w =
                  (case process_query env (strip l) (trace w @ [Printed Prompt]) of
                     (Inl e, h2) \<Rightarrow>
                       (if is_Exception e
                        then (Continue,
                              w\<lparr>stdin := ls, trace := h2 @ [Printed (LoopError (str_exn e))]\<rparr>)
                        else (Propagate e, w\<lparr>stdin := ls, trace := h2\<rparr>))
                   | (Inr u, h2) \<Rightarrow> (Continue, w\<lparr>stdin := ls, trace := h2\<rparr>))) \<and>
         (\<exists>rs. posted (trace (snd (loop_body env w))) = posted (trace w) @ rs \<and>
               (\<forall>r \<in> set rs. map msg_content (req_messages r) = [system_prompt, strip l])) \<and>
         (strip l \<noteq> [] \<longrightarrow> \<not> isspace (hd (strip l)) \<and> \<not> isspace (last (strip l))) \<and>
         (\<exists>a b. l = a @ strip l @ b \<and> (\<forall>c \<in> set a. isspace c) \<and> (\<forall>c \<in> set b. isspace c))"
proof -
  have 1: "(fst (loop_body env w) = Break) = (lower (strip l) = ''quit'')"
  proof
    assume "fst (loop_body env w) = Break"
    then show "lower (strip l) = ''quit''" using loop_body_Break [of env w] assms by auto
  next
    assume "lower (strip l) = ''quit''"
    then show "fst (loop_body env w) = Break" using assms by (simp add: loop_body_quit)
  qed
  have sentinel: "(fst (loop_body env w) = Break) =
           (\<exists>a b c d. strip l = [a, b, c, d] \<and>
              (a = CHR ''q'' \<or> a = CHR ''Q'') \<and> (b = CHR ''u'' \<or> b = CHR ''U'') \<and>
              (c = CHR ''i'' \<or> c = CHR ''I'') \<and> (d = CHR ''t'' \<or> d = CHR ''T''))"
    using 1 lower_quit [of "strip l"] by simp
  have 2: "lower (strip l) \<noteq> ''quit''
            \<longrightarrow> loop_body env w =
                  (case process_query env (strip l) (trace w @ [Printed Prompt]) of
                     (Inl e, h2) \<Rightarrow>
                       (if is_Exception e
                        then (Continue,
                              w\<lparr>stdin := ls, trace := h2 @ [Printed (LoopError (str_exn e))]\<rparr>)
                        else (Propagate e, w\<lparr>stdin := ls, trace := h2\<rparr>))
                   | (Inr u, h2) \<Rightarrow> (Continue, w\<lparr>stdin := ls, trace := h2\<rparr>))"
    using loop_body_query [OF assms] by blast
  from loop_body_posted_new [of env w] obtain rs where
    rs: "posted (trace (snd (loop_body env w))) = posted (trace w) @ rs"
        "\<forall>r \<in> set rs. \<exists>l' ls'. stdin w = l' # ls' \<and>
            req_messages r =
              [\<lparr>msg_role = ''system'', msg_content = system_prompt\<rparr>,
               \<lparr>msg_role = ''user'', msg_content = strip l'\<rparr>]"
    by blast
  have "\<forall>r \<in> set rs. map msg_content (req_messages r) = [system_prompt, strip l]"
    using rs(2) assms by fastforce
  then have 3: "\<exists>rs. posted (trace (snd (loop_body env w))) = posted (trace w) @ rs \<and>
               (\<forall>r \<in> set rs. map msg_content (req_messages r) = [system_prompt, strip l])"
    using rs(1) by blast
  have 4: "strip l \<noteq> [] \<longrightarrow> \<not> isspace (hd (strip l)) \<and> \<not> isspace (last (strip l))"
    using strip_edges by blast
  show ?thesis using 1 sentinel 2 3 4 strip_decomp [of l] by blast
qed

lemma hello_query:
  "process_query (demo_env (ok_response hello_body)) q h =
     (Inr (),
      h @ [ListedTools, Posted (build_request q (available_tools demo_tools)),
           Printed (ModelText (JStr ''Hello!''))])"
  by (simp add: demo_simps run_simps)

lemma hello_pass:
  assumes "lower (strip l) \<noteq> ''quit''"
  shows "loop_body (demo_env (ok_response hello_body)) \<lparr>stdin = l # ls, trace = h\<rparr> =
           (Continue,
            \<lparr>stdin = ls,
             trace = h @ [Printed Prompt, ListedTools,
                          Posted (build_request (strip l) (available_tools demo_tools)),
                          Printed (ModelText (JStr ''Hello!''))]\<rparr>)"
  using loop_body_query [of "\<lparr>stdin = l # ls, trace = h\<rparr>" l ls
          "demo_env (ok_response hello_body)"] assms
  by (simp add: hello_query)

lemma quit_pass:
  "loop_body env \<lparr>stdin = [''quit''], trace = h\<rparr> =
     (Break, \<lparr>stdin = [], trace = h @ [Printed Prompt]\<rparr>)"
  using loop_body_quit [of "\<lparr>stdin = [''quit''], trace = h\<rparr>" "''quit''" "[]" env] quit_line
  by simp

lemma two_queries_session:
  "while_True (demo_env (ok_response hello_body)) (Suc (Suc (Suc 0)))
     (console_world [''hi'', ''  weather in Rome '', ''quit'']) =
     Some (Quit,
           \<lparr>stdin = [],
            trace = [Printed Prompt, ListedTools,
                     Posted (build_request ''hi'' (available_tools demo_tools)),
                     Printed (ModelText (JStr ''Hello!'')),
                     Printed Prompt, ListedTools,
                     Posted (build_request ''weather in Rome'' (available_tools demo_tools)),
                     Printed (ModelText (JStr ''Hello!'')),
                     Printed Prompt]\<rparr>)"
  using hello_pass [OF hi_line, of "[''  weather in Rome '', ''quit'']" "[]"]
        hello_pass [OF padded_not_quit, of "[''quit'']"
          "[Printed Prompt, ListedTools,
            Posted (build_request ''hi'' (available_tools demo_tools)),
            Printed (ModelText (JStr ''Hello!''))]"]
  by (simp add: console_world_def hi_strip padded_line quit_pass)

theorem request_has_two_messages_witness:
  "while_True (demo_env (ok_response hello_body)) (Suc (Suc (Suc 0)))
     (console_world [''hi'', ''  weather in Rome '', ''quit'']) =
     Some (Quit,
           \<lparr>stdin = [],
            trace = [Printed Prompt, ListedTools,
                     Posted (build_request ''hi'' (available_tools demo_tools)),
                     Printed (ModelText (JStr ''Hello!'')),
                     Printed Prompt, ListedTools,
                     Posted (build_request ''weather in Rome'' (available_tools demo_tools)),
                     Printed (ModelText (JStr ''Hello!'')),
                     Printed Prompt]\<rparr>) \<and>
   req_messages (build_request ''weather in Rome'' (available_tools demo_tools)) =
     [\<lparr>msg_role = ''system'', msg_content = system_prompt\<rparr>,
      \<lparr>msg_role = ''user'', msg_content = ''weather in Rome''\<rparr>]"
  using request_has_two_messages
          [where env = "demo_env (ok_response hello_body)" and n = "Suc (Suc (Suc 0))"
             and w = "console_world [''hi'', ''  weather in Rome '', ''quit'']" and x = Quit
             and query = "''weather in Rome''" and tools = "available_tools demo_tools"]
        two_queries_session
  by simp

theorem query_is_stripped_line_witness:
  "stdin (console_world [''  weather in Rome '']) = [''  weather in Rome ''] \<and>
   lower (strip ''  weather in Rome '') \<noteq> ''quit'' \<and>
   strip ''  weather in Rome '' = ''weather in Rome'' \<and>
   loop_body (demo_env (ok_response hello_body)) (console_world [''  weather in Rome '']) =
     (Continue,
      \<lparr>stdin = [],
       trace = [Printed Prompt, ListedTools,
                Posted (build_request ''weather in Rome'' (available_tools demo_tools)),
                Printed (ModelText (JStr ''Hello!''))]\<rparr>) \<and>
   stdin (console_world [''  QuIt '', ''hi'']) = [''  QuIt '', ''hi''] \<and>
   strip ''  QuIt '' = ''QuIt'' \<and>
   lower (strip ''  QuIt '') = ''quit'' \<and>
   loop_body (demo_env (ok_response hello_body)) (console_world [''  QuIt '', ''hi'']) =
     (Break, \<lparr>stdin = [''hi''], trace = [Printed Prompt]\<rparr>)"
  using query_is_stripped_line
          [where w = "console_world [''  weather in Rome '']" and l = "''  weather in Rome ''"
             and ls = "[]" and env = "demo_env (ok_response hello_body)"]
        query_is_stripped_line
          [where w = "console_world [''  QuIt '', ''hi'']" and l = "''  QuIt ''"
             and ls = "[''hi'']" and env = "demo_env (ok_response hello_body)"]
        hello_pass [OF padded_not_quit, of "[]" "[]"] padded_not_quit padded_line
        loop_body_quit [of "console_world [''  QuIt '', ''hi'']" "''  QuIt ''" "[''hi'']"
          "demo_env (ok_response hello_body)"]
        mixed_quit_strip mixed_quit_line
  by (simp add: console_world_def)

subsection \<open>The tool list sent to the model\<close>

text \<open>
  C6. The list built from the tools of \<open>list_tools\<close> has their number and their order;
  entry \<open>i\<close> is the object with \<open>type\<close> \<open>function\<close> and a \<open>function\<close> object holding
  the name and the input schema of tool \<open>i\<close>, and its description, which is the empty
  string when the tool has none. It is the tool list of the request that the query
  sends.
\<close>

theorem available_tools_shape:
  "length (available_tools tools) = length tools \<and>
   (\<forall>i < length tools.
      available_tools tools ! i =
        JObj [(''type'', JStr ''function''),
              (''function'',
               JObj [(''name'', JStr (tool_name (tools ! i))),
                     (''description'',
                      JStr (case tool_description (tools ! i) of None \<Rightarrow> [] | Some d \<Rightarrow> d)),
                     (''parameters'', tool_inputSchema (tools ! i))])]) \<and>
   (list_tools_resp env h = Inr tools
      \<longrightarrow> posted (snd (process_query env query h)) =
            posted h @ [build_request query (available_tools tools)] \<and>
          req_tools (build_request query (available_tools tools)) = available_tools tools)"
proof -
  have "length (available_tools tools) = length tools \<and>
   (\<forall>i < length tools.
      available_tools tools ! i =
        JObj [(''type'', JStr ''function''),
              (''function'',
               JObj [(''name'', JStr (tool_name (tools ! i))),
                     (''description'',
                      JStr (case tool_description (tools ! i) of None \<Rightarrow> [] | Some d \<Rightarrow> d)),
                     (''parameters'', tool_inputSchema (tools ! i))])])"
    by (auto simp: available_tools_def tool_descriptor_def or_empty_def split: option.splits)
  moreover have "list_tools_resp env h = Inr tools
      \<longrightarrow> posted (snd (process_query env query h)) =
            posted h @ [build_request query (available_tools tools)] \<and>
          req_tools (build_request query (available_tools tools)) = available_tools tools"
    using process_query_posted [of env query h] by (simp add: build_request_def)
  ultimately show ?thesis by blast
qed

theorem available_tools_shape_witness:
  "length (available_tools demo_tools) = 2 \<and>
   available_tools demo_tools ! 0 =
     JObj [(''type'', JStr ''function''),
           (''function'',
            JObj [(''name'', JStr ''get_weather''), (''description'', JStr []),
                  (''parameters'', JObj [(''type'', JStr ''object'')])])] \<and>
   available_tools demo_tools ! 1 =
     JObj [(''type'', JStr ''function''),
           (''function'',
            JObj [(''name'', JStr ''get_time''), (''description'', JStr ''Current time''),
                  (''parameters'', JObj [])])] \<and>
   list_tools_resp (demo_env (ok_response hello_body)) [] = Inr demo_tools \<and>
   posted (snd (process_query (demo_env (ok_response hello_body)) ''hi'' [])) =
     [build_request ''hi'' (available_tools demo_tools)]"
  using available_tools_shape [of demo_tools "demo_env (ok_response hello_body)" "[]" "''hi''"]
        hello_query [of "''hi''" "[]"]
  by (simp add: demo_tools_def All_less_Suc numeral_2_eq_2 demo_env_def)

end
